theory Spec2Isabelle
  imports Complex_Main "HOL-Library.Multiset"
begin

unbundle bit_operations_syntax

section \<open>Python strings\<close>

text \<open>
  A Python \<open>str\<close> is a sequence of Unicode code points; it is modelled as a list of
  integers.  Literals of the source are written with \<open>ustr\<close>.  Timestamps are the
  readings of \<open>time.time()\<close>; they are modelled as real numbers.
\<close>

type_synonym pystr = "int list"

definition ustr :: "string \<Rightarrow> pystr" where
  "ustr s = map of_char s"

text \<open>
  \<open>str.isspace\<close> / the characters removed by \<open>str.strip()\<close> without argument
  (CPython's whitespace table).
\<close>

definition isspace :: "int \<Rightarrow> bool" where
  "isspace c \<longleftrightarrow>
     (0x09 \<le> c \<and> c \<le> 0x0D) \<or> (0x1C \<le> c \<and> c \<le> 0x20) \<or> c = 0x85 \<or> c = 0xA0 \<or>
     c = 0x1680 \<or> (0x2000 \<le> c \<and> c \<le> 0x200A) \<or> c = 0x2028 \<or> c = 0x2029 \<or>
     c = 0x202F \<or> c = 0x205F \<or> c = 0x3000"

definition strip :: "pystr \<Rightarrow> pystr" where
  "strip s = rev (dropWhile isspace (rev (dropWhile isspace s)))"

text \<open>
  \<open>str.encode('utf-8')\<close>: a lone surrogate raises \<open>UnicodeEncodeError\<close>
  (\<open>None\<close> here); values outside the code space are no characters of a \<open>str\<close>.
\<close>

definition utf8_char :: "int \<Rightarrow> int list option" where
  "utf8_char c =
     (if 0 \<le> c \<and> c < 0x80 then Some [c]
      else if 0x80 \<le> c \<and> c < 0x800 then Some [0xC0 + c div 64, 0x80 + c mod 64]
      else if 0xD800 \<le> c \<and> c \<le> 0xDFFF then None
      else if 0x800 \<le> c \<and> c < 0x10000 then
        Some [0xE0 + c div 4096, 0x80 + (c div 64) mod 64, 0x80 + c mod 64]
      else if 0x10000 \<le> c \<and> c < 0x110000 then
        Some [0xF0 + c div 262144, 0x80 + (c div 4096) mod 64, 0x80 + (c div 64) mod 64,
              0x80 + c mod 64]
      else None)"

fun utf8_encode :: "pystr \<Rightarrow> int list option" where
  "utf8_encode [] = Some []"
| "utf8_encode (c # cs) =
     (case utf8_char c of
        None \<Rightarrow> None
      | Some bs \<Rightarrow> (case utf8_encode cs of None \<Rightarrow> None | Some r \<Rightarrow> Some (bs @ r)))"

section \<open>\<open>hashlib.md5(...).hexdigest()\<close>\<close>

text \<open>
  MD5 (RFC 1321) on a list of bytes, with 32-bit words as integers reduced modulo
  \<open>2^32\<close>.  Each row of the table is (round, sine constant, rotation, message index).
\<close>

definition w32 :: "int \<Rightarrow> int" where
  "w32 x = x mod 4294967296"

definition md5_table :: "(nat \<times> int \<times> nat \<times> nat) list" where
  "md5_table =
    [(0, 0xd76aa478, 7, 0), (0, 0xe8c7b756, 12, 1), (0, 0x242070db, 17, 2), (0, 0xc1bdceee, 22, 3),
     (0, 0xf57c0faf, 7, 4), (0, 0x4787c62a, 12, 5), (0, 0xa8304613, 17, 6), (0, 0xfd469501, 22, 7),
     (0, 0x698098d8, 7, 8), (0, 0x8b44f7af, 12, 9), (0, 0xffff5bb1, 17, 10), (0, 0x895cd7be, 22, 11),
     (0, 0x6b901122, 7, 12), (0, 0xfd987193, 12, 13), (0, 0xa679438e, 17, 14), (0, 0x49b40821, 22, 15),
     (1, 0xf61e2562, 5, 1), (1, 0xc040b340, 9, 6), (1, 0x265e5a51, 14, 11), (1, 0xe9b6c7aa, 20, 0),
     (1, 0xd62f105d, 5, 5), (1, 0x02441453, 9, 10), (1, 0xd8a1e681, 14, 15), (1, 0xe7d3fbc8, 20, 4),
     (1, 0x21e1cde6, 5, 9), (1, 0xc33707d6, 9, 14), (1, 0xf4d50d87, 14, 3), (1, 0x455a14ed, 20, 8),
     (1, 0xa9e3e905, 5, 13), (1, 0xfcefa3f8, 9, 2), (1, 0x676f02d9, 14, 7), (1, 0x8d2a4c8a, 20, 12),
     (2, 0xfffa3942, 4, 5), (2, 0x8771f681, 11, 8), (2, 0x6d9d6122, 16, 11), (2, 0xfde5380c, 23, 14),
     (2, 0xa4beea44, 4, 1), (2, 0x4bdecfa9, 11, 4), (2, 0xf6bb4b60, 16, 7), (2, 0xbebfbc70, 23, 10),
     (2, 0x289b7ec6, 4, 13), (2, 0xeaa127fa, 11, 0), (2, 0xd4ef3085, 16, 3), (2, 0x04881d05, 23, 6),
     (2, 0xd9d4d039, 4, 9), (2, 0xe6db99e5, 11, 12), (2, 0x1fa27cf8, 16, 15), (2, 0xc4ac5665, 23, 2),
     (3, 0xf4292244, 6, 0), (3, 0x432aff97, 10, 7), (3, 0xab9423a7, 15, 14), (3, 0xfc93a039, 21, 5),
     (3, 0x655b59c3, 6, 12), (3, 0x8f0ccc92, 10, 3), (3, 0xffeff47d, 15, 10), (3, 0x85845dd1, 21, 1),
     (3, 0x6fa87e4f, 6, 8), (3, 0xfe2ce6e0, 10, 15), (3, 0xa3014314, 15, 6), (3, 0x4e0811a1, 21, 13),
     (3, 0xf7537e82, 6, 4), (3, 0xbd3af235, 10, 11), (3, 0x2ad7d2bb, 15, 2), (3, 0xeb86d391, 21, 9)]"

definition rotl32 :: "int \<Rightarrow> nat \<Rightarrow> int" where
  "rotl32 x n = w32 (x * 2 ^ n) + x div 2 ^ (32 - n)"

definition not32 :: "int \<Rightarrow> int" where
  "not32 x = 4294967295 - x"

definition md5_F :: "nat \<Rightarrow> int \<Rightarrow> int \<Rightarrow> int \<Rightarrow> int" where
  "md5_F r b c d =
     (if r = 0 then (b AND c) OR (not32 b AND d)
      else if r = 1 then (d AND b) OR (not32 d AND c)
      else if r = 2 then b XOR c XOR d
      else c XOR (b OR not32 d))"

type_synonym md5_state = "int \<times> int \<times> int \<times> int"

fun md5_rounds :: "int list \<Rightarrow> (nat \<times> int \<times> nat \<times> nat) list \<Rightarrow> md5_state \<Rightarrow> md5_state" where
  "md5_rounds m [] st = st"
| "md5_rounds m ((r, k, s, g) # rest) (a, b, c, d) =
     md5_rounds m rest (d, w32 (b + rotl32 (w32 (md5_F r b c d + a + k + m ! g)) s), b, c)"

fun le_words :: "int list \<Rightarrow> int list" where
  "le_words (b0 # b1 # b2 # b3 # bs) =
     (b0 + 256 * b1 + 65536 * b2 + 16777216 * b3) # le_words bs"
| "le_words _ = []"

definition md5_chunk :: "int list \<Rightarrow> md5_state \<Rightarrow> md5_state" where
  "md5_chunk bs st =
     (case st of (a0, b0, c0, d0) \<Rightarrow>
        (case md5_rounds (le_words bs) md5_table st of
           (a, b, c, d) \<Rightarrow> (w32 (a0 + a), w32 (b0 + b), w32 (c0 + c), w32 (d0 + d))))"

function split64 :: "'a list \<Rightarrow> 'a list list" where
  "split64 xs = (if xs = [] then [] else take 64 xs # split64 (drop 64 xs))"
  by pat_completeness auto
termination
  by (relation "measure length") auto

fun le_bytes :: "nat \<Rightarrow> int \<Rightarrow> int list" where
  "le_bytes 0 v = []"
| "le_bytes (Suc n) v = (v mod 256) # le_bytes n (v div 256)"

fun ilength :: "'a list \<Rightarrow> int" where
  "ilength [] = 0"
| "ilength (x # xs) = 1 + ilength xs"

definition md5_pad :: "int list \<Rightarrow> int list" where
  "md5_pad bs =
     bs @ [128] @ replicate (nat ((55 - ilength bs) mod 64)) 0
        @ le_bytes 8 ((8 * ilength bs) mod 18446744073709551616)"

definition hex_digit :: "int \<Rightarrow> char" where
  "hex_digit n = ''0123456789abcdef'' ! nat (n mod 16)"

definition hex_byte :: "int \<Rightarrow> string" where
  "hex_byte b = [hex_digit (b div 16), hex_digit b]"

definition md5_hexdigest :: "int list \<Rightarrow> string" where
  "md5_hexdigest bs =
     (case fold md5_chunk (split64 (md5_pad bs))
             (0x67452301, 0xefcdab89, 0x98badcfe, 0x10325476) of
        (a, b, c, d) \<Rightarrow>
          concat (map hex_byte (le_bytes 4 a @ le_bytes 4 b @ le_bytes 4 c @ le_bytes 4 d)))"

text \<open>\<open>hashlib.md5(s.encode('utf-8')).hexdigest()\<close>\<close>

definition md5_hex :: "pystr \<Rightarrow> string option" where
  "md5_hex s = map_option md5_hexdigest (utf8_encode s)"

section \<open>The deduplication ledger\<close>

text \<open>
  \<open>recent_comments\<close> maps a streamer to a dict from hash to last-seen time.  A Python
  dict keeps insertion order, and the order decides which entries survive the
  stable sort in \<open>_cleanup_old_comments\<close>, so a ledger is an association list in
  insertion order.  \<open>d[k] = v\<close> replaces the value of a present key in place and appends
  an absent one; \<open>k in d\<close> and \<open>d[k]\<close> are \<open>map_of\<close>.
\<close>

type_synonym ledger = "(string \<times> real) list"

datatype error = UnicodeEncodeError | OverflowError

fun dict_set :: "ledger \<Rightarrow> string \<Rightarrow> real \<Rightarrow> ledger" where
  "dict_set [] k v = [(k, v)]"
| "dict_set ((k', v') # d) k v =
     (if k' = k then (k, v) # d else (k', v') # dict_set d k v)"

text \<open>
  \<open>_cleanup_old_comments\<close>: delete the entries older than one hour; if more than 1000
  remain, keep the first 500 of the entries sorted by timestamp, latest first
  (\<open>sorted(..., reverse=True)\<close> is stable: equal timestamps keep their order).
\<close>

definition purge_old :: "ledger \<Rightarrow> real \<Rightarrow> ledger" where
  "purge_old d current_time =
     (let cutoff_time = current_time - 3600 in filter (\<lambda>(h, t). \<not> t < cutoff_time) d)"

definition keep_recent :: "ledger \<Rightarrow> ledger" where
  "keep_recent d = (if length d > 1000 then take 500 (sort_key (\<lambda>(h, t). - t) d) else d)"

definition cleanup_old_comments ::
  "(pystr \<rightharpoonup> ledger) \<Rightarrow> pystr \<Rightarrow> real \<Rightarrow> (pystr \<rightharpoonup> ledger)" where
  "cleanup_old_comments rc username current_time =
     (case rc username of
        None \<Rightarrow> rc
      | Some d \<Rightarrow> rc(username \<mapsto> keep_recent (purge_old d current_time)))"

text \<open>\<open>exact_hash in d and current_time - d[exact_hash] < window\<close>\<close>

definition seen_within :: "ledger \<Rightarrow> string \<Rightarrow> real \<Rightarrow> real \<Rightarrow> bool" where
  "seen_within d h current_time window =
     (case map_of d h of None \<Rightarrow> False | Some last_seen \<Rightarrow> current_time - last_seen < window)"

text \<open>
  Strategy 3 collects the timestamps of the entries whose hash starts with the first
  eight hex digits of \<open>md5(commenter + "|")\<close> and that are less than five seconds old.
  The prefix is hashed once per ledger entry, so an encoding error can only surface
  on a non-empty ledger.
\<close>

definition startswith :: "string \<Rightarrow> string \<Rightarrow> bool" where
  "startswith h p \<longleftrightarrow> take (length p) h = p"

definition recent_from_user :: "ledger \<Rightarrow> pystr \<Rightarrow> real \<Rightarrow> error + real list" where
  "recent_from_user d commenter current_time =
     (if d = [] then Inr []
      else case md5_hex (commenter @ ustr ''|'') of
             None \<Rightarrow> Inl UnicodeEncodeError
           | Some ph \<Rightarrow>
               Inr (map snd (filter (\<lambda>(hash_val, timestamp).
                      startswith hash_val (take 8 ph) \<and> current_time - timestamp < 5) d)))"

text \<open>
  \<open>_is_duplicate_comment\<close>.  \<open>lower\<close> and \<open>nfc\<close> stand for \<open>str.lower\<close> and
  \<open>unicodedata.normalize('NFC', _)\<close>, whose tables belong to the Python runtime.  The
  result is the new \<open>recent_comments\<close> with the returned flag, or the exception raised.
  The first statement creates an empty ledger for a streamer that has none
  (\<open>ledger_of\<close>, \<open>rc0\<close>).
\<close>

definition ledger_of :: "(pystr \<rightharpoonup> ledger) \<Rightarrow> pystr \<Rightarrow> ledger" where
  "ledger_of rc username = (case rc username of None \<Rightarrow> [] | Some d \<Rightarrow> d)"

definition is_duplicate_comment ::
  "(pystr \<Rightarrow> pystr) \<Rightarrow> (pystr \<Rightarrow> pystr) \<Rightarrow> (pystr \<rightharpoonup> ledger) \<Rightarrow> pystr \<Rightarrow> pystr \<Rightarrow> pystr \<Rightarrow> real
     \<Rightarrow> (pystr \<rightharpoonup> ledger) \<times> (error + bool)" where
  "is_duplicate_comment lower nfc rc username commenter comment current_time =
     (let d = ledger_of rc username;
          rc0 = rc(username \<mapsto> d)
      in case md5_hex (commenter @ ustr ''|'' @ strip comment) of
           None \<Rightarrow> (rc0, Inl UnicodeEncodeError)
         | Some exact_hash \<Rightarrow>
             if seen_within d exact_hash current_time 30 then (rc0, Inr True)
             else
               (case md5_hex (commenter @ ustr ''|'' @ nfc (strip (lower comment))) of
                  None \<Rightarrow> (rc0, Inl UnicodeEncodeError)
                | Some similarity_hash \<Rightarrow>
                    if seen_within d similarity_hash current_time 10 then (rc0, Inr True)
                    else
                      (case recent_from_user d commenter current_time of
                         Inl e \<Rightarrow> (rc0, Inl e)
                       | Inr ts \<Rightarrow>
                           if length ts \<ge> 3 then (rc0, Inr True)
                           else
                             (cleanup_old_comments
                                (rc0(username \<mapsto>
                                   dict_set (dict_set d exact_hash current_time)
                                     similarity_hash current_time))
                                username current_time,
                              Inr False))))"

section \<open>The emoji-only filter\<close>

definition emoji_char :: "int \<Rightarrow> bool" where
  "emoji_char c \<longleftrightarrow>
     (0x1F600 \<le> c \<and> c \<le> 0x1F64F) \<or> (0x1F300 \<le> c \<and> c \<le> 0x1F5FF) \<or>
     (0x1F680 \<le> c \<and> c \<le> 0x1F6FF) \<or> (0x1F1E0 \<le> c \<and> c \<le> 0x1F1FF) \<or>
     (0x2702 \<le> c \<and> c \<le> 0x27B0) \<or> (0x24C2 \<le> c \<and> c \<le> 0x1F251) \<or>
     (0x1F900 \<le> c \<and> c \<le> 0x1F9FF) \<or> (0x1FA70 \<le> c \<and> c \<le> 0x1FAFF)"

definition is_emoji_only_message :: "pystr \<Rightarrow> bool" where
  "is_emoji_only_message text =
     (if text = [] \<or> strip text = [] then True
      else
        (let text_no_space = filter (\<lambda>c. c \<noteq> 0x20 \<and> c \<noteq> 0x0A \<and> c \<noteq> 0x0D \<and> c \<noteq> 0x09) text
         in if text_no_space = [] then True
            else strip (filter (\<lambda>c. \<not> emoji_char c) text_no_space) = []))"

section \<open>\<open>save_event\<close>\<close>

text \<open>
  The part of the scraper object that event handling and connection handling touch.
  A session file is the list of the lines written to it, and writing to it is taken to
  succeed; the permit pool is the value of \<open>connection_semaphore\<close>.  Logging is not
  modelled.
\<close>

record scraper =
  recent_comments :: "pystr \<rightharpoonup> ledger"
  session_files :: "pystr \<rightharpoonup> pystr list"
  comments_captured :: nat
  duplicates_filtered :: nat
  connection_attempts :: nat
  failed_connections :: nat
  rate_limit_hits :: nat
  global_rate_limit_until :: real
  streamer_rate_limits :: "pystr \<rightharpoonup> real"
  connection_semaphore :: nat
  last_connection_time :: real
  active_clients :: "pystr set"

datatype event_type = Comment | System | Other

definition session_header :: "pystr \<Rightarrow> pystr" where
  "session_header username = ustr ''SYSTEM: Connected to @'' @ username @ ustr [CHR 0x27] @ ustr ''s live stream''"

definition clean_content :: "pystr \<Rightarrow> pystr" where
  "clean_content content = strip (map (\<lambda>c. if c = 0x0A \<or> c = 0x0D then 0x20 else c) content)"

text \<open>The second half of \<open>save_event\<close>: create the session file if needed, append the line.\<close>

definition write_event :: "scraper \<Rightarrow> pystr \<Rightarrow> event_type \<Rightarrow> pystr \<Rightarrow> scraper" where
  "write_event st username ev content =
     (let lines = (case session_files st username of
                     None \<Rightarrow> [session_header username]
                   | Some ls \<Rightarrow> ls)
      in case ev of
           Comment \<Rightarrow>
             st\<lparr>session_files := (session_files st)(username \<mapsto> lines @ [clean_content content]),
                comments_captured := comments_captured st + 1\<rparr>
         | System \<Rightarrow>
             st\<lparr>session_files :=
                  (session_files st)(username \<mapsto> lines @ [ustr ''SYSTEM: '' @ clean_content content])\<rparr>
         | Other \<Rightarrow> st\<lparr>session_files := (session_files st)(username \<mapsto> lines)\<rparr>)"

text \<open>
  \<open>save_event\<close>: an exception raised while hashing is caught and logged by the
  \<open>except\<close> clause, which drops the event.
\<close>

definition save_event ::
  "(pystr \<Rightarrow> pystr) \<Rightarrow> (pystr \<Rightarrow> pystr) \<Rightarrow> scraper \<Rightarrow> pystr \<Rightarrow> event_type \<Rightarrow> pystr \<Rightarrow> pystr \<Rightarrow> real
     \<Rightarrow> scraper" where
  "save_event lower nfc st username ev commenter content current_time =
     (if ev = Comment then
        (case is_duplicate_comment lower nfc (recent_comments st) username commenter content
                current_time of
           (rc, Inl e) \<Rightarrow> st\<lparr>recent_comments := rc\<rparr>
         | (rc, Inr True) \<Rightarrow>
             st\<lparr>recent_comments := rc, duplicates_filtered := duplicates_filtered st + 1\<rparr>
         | (rc, Inr False) \<Rightarrow>
             if is_emoji_only_message content
             then st\<lparr>recent_comments := rc, duplicates_filtered := duplicates_filtered st + 1\<rparr>
             else write_event (st\<lparr>recent_comments := rc\<rparr>) username ev content)
      else write_event st username ev content)"

section \<open>Rate limits and the admission gate\<close>

record rate_limit_config =
  base_delay :: real
  max_delay :: real
  rate_limit_cooldown :: real
  global_rate_limit_duration :: real
  per_streamer_rate_limit :: real
  max_concurrent_connections :: nat
  min_connection_interval :: real
  pre_connection_delay :: "real \<times> real"
  connection_timeout :: real
  retry_attempts :: nat
  backoff_multiplier :: real
  jitter_range :: "real \<times> real"

definition default_config :: rate_limit_config where
  "default_config =
     \<lparr>base_delay = 15, max_delay = 1800, rate_limit_cooldown = 3600,
      global_rate_limit_duration = 1800, per_streamer_rate_limit = 3600,
      max_concurrent_connections = 2, min_connection_interval = 5,
      pre_connection_delay = (2, 5), connection_timeout = 45, retry_attempts = 3,
      backoff_multiplier = 2, jitter_range = (8 / 10, 12 / 10)\<rparr>"

text \<open>The state set up by \<open>__init__\<close>, with the comment history loaded from disk.\<close>

definition init_scraper :: "rate_limit_config \<Rightarrow> (pystr \<rightharpoonup> ledger) \<Rightarrow> scraper" where
  "init_scraper cfg history =
     \<lparr>recent_comments = history, session_files = Map.empty, comments_captured = 0,
      duplicates_filtered = 0, connection_attempts = 0, failed_connections = 0,
      rate_limit_hits = 0, global_rate_limit_until = 0, streamer_rate_limits = Map.empty,
      connection_semaphore = max_concurrent_connections cfg, last_connection_time = 0,
      active_clients = {}\<rparr>"

text \<open>The two checks at the head of \<open>create_streamer_client\<close>.\<close>

definition is_globally_limited :: "scraper \<Rightarrow> real \<Rightarrow> bool" where
  "is_globally_limited st current_time \<longleftrightarrow> current_time < global_rate_limit_until st"

definition is_streamer_limited :: "scraper \<Rightarrow> pystr \<Rightarrow> real \<Rightarrow> bool" where
  "is_streamer_limited st username current_time =
     (case streamer_rate_limits st username of
        None \<Rightarrow> False
      | Some until \<Rightarrow> current_time < until)"

text \<open>The two assignments under \<open># Set rate limits\<close> in the exception handler.\<close>

definition record_rate_limit :: "rate_limit_config \<Rightarrow> scraper \<Rightarrow> pystr \<Rightarrow> real \<Rightarrow> scraper" where
  "record_rate_limit cfg st username current_time =
     st\<lparr>global_rate_limit_until := current_time + global_rate_limit_duration cfg,
        streamer_rate_limits :=
          (streamer_rate_limits st)(username \<mapsto> current_time + per_streamer_rate_limit cfg)\<rparr>"

text \<open>\<open>indicator in error_msg.lower()\<close>\<close>

fun contains :: "pystr \<Rightarrow> pystr \<Rightarrow> bool" where
  "contains [] needle = (needle = [])"
| "contains (c # cs) needle =
     (take (length needle) (c # cs) = needle \<or> contains cs needle)"

definition rate_limit_indicators :: "pystr list" where
  "rate_limit_indicators =
     map ustr [''rate_limit'', ''rate limit'', ''too many requests'', ''429'',
               ''sign server'', ''rate_limit_ip_day'', ''euler'', ''blocked'']"

definition is_rate_limited :: "(pystr \<Rightarrow> pystr) \<Rightarrow> pystr \<Rightarrow> bool" where
  "is_rate_limited lower error_msg =
     list_ex (\<lambda>indicator. contains (lower error_msg) indicator) rate_limit_indicators"

text \<open>
  What the surroundings contribute to one call of \<open>create_streamer_client\<close>: whether the
  client library was imported, the three clock readings, and how creating and starting
  the client ended (with the text of the exception).
\<close>

datatype attempt = Started | Create_raised pystr | Start_raised pystr

record conn_env =
  available :: bool
  t_check :: real
  t_connect :: real
  t_except :: real
  outcome :: attempt

definition handle_failure ::
  "(pystr \<Rightarrow> pystr) \<Rightarrow> rate_limit_config \<Rightarrow> conn_env \<Rightarrow> scraper \<Rightarrow> pystr \<Rightarrow> pystr
     \<Rightarrow> scraper \<times> bool \<times> bool" where
  "handle_failure lower cfg env st username error_msg =
     (let st1 = st\<lparr>failed_connections := failed_connections st + 1\<rparr>
      in if is_rate_limited lower error_msg
         then (record_rate_limit cfg (st1\<lparr>rate_limit_hits := rate_limit_hits st1 + 1\<rparr>)
                 username (t_except env), False, True)
         else (st1, False, False))"

text \<open>The \<open>try\<close> block, entered with a permit held.\<close>

definition connect_body ::
  "(pystr \<Rightarrow> pystr) \<Rightarrow> rate_limit_config \<Rightarrow> conn_env \<Rightarrow> scraper \<Rightarrow> pystr
     \<Rightarrow> scraper \<times> bool \<times> bool" where
  "connect_body lower cfg env st username =
     (if is_globally_limited st (t_check env) then (st, False, True)
      else if is_streamer_limited st username (t_check env) then (st, False, True)
      else
        (let st1 = st\<lparr>last_connection_time := t_connect env\<rparr>
         in case outcome env of
              Started \<Rightarrow>
                (st1\<lparr>active_clients := insert username (active_clients st1)\<rparr>, True, False)
            | Create_raised msg \<Rightarrow> handle_failure lower cfg env st1 username msg
            | Start_raised msg \<Rightarrow>
                handle_failure lower cfg env
                  (st1\<lparr>active_clients := insert username (active_clients st1)\<rparr>) username msg))"

text \<open>
  \<open>async with self.connection_semaphore\<close>: a permit is taken on entry and given back on
  every way out.  With no permit left the caller waits (\<open>None\<close>).
\<close>

definition acquire :: "scraper \<Rightarrow> scraper option" where
  "acquire st =
     (if connection_semaphore st = 0 then None
      else Some (st\<lparr>connection_semaphore := connection_semaphore st - 1\<rparr>))"

definition release :: "scraper \<Rightarrow> scraper" where
  "release st = st\<lparr>connection_semaphore := connection_semaphore st + 1\<rparr>"

definition create_streamer_client ::
  "(pystr \<Rightarrow> pystr) \<Rightarrow> rate_limit_config \<Rightarrow> conn_env \<Rightarrow> scraper \<Rightarrow> pystr
     \<Rightarrow> (scraper \<times> bool \<times> bool) option" where
  "create_streamer_client lower cfg env st username =
     (if \<not> available env then Some (st, False, False)
      else
        (case acquire st of
           None \<Rightarrow> None
         | Some st1 \<Rightarrow>
             (case connect_body lower cfg env
                     (st1\<lparr>connection_attempts := connection_attempts st1 + 1\<rparr>) username of
                (st2, res) \<Rightarrow> Some (release st2, res))))"

section \<open>Backoff and the monitoring loop\<close>

text \<open>
  \<open>backoff_multiplier ** consecutive_failures\<close> is a float power: it raises
  \<open>OverflowError\<close> when the result leaves the range of a double.  Rounding inside the
  range is not modelled.
\<close>

definition float_overflow :: real where
  "float_overflow = 2 ^ 1024 - 2 ^ 970"

definition float_pow :: "real \<Rightarrow> nat \<Rightarrow> error + real" where
  "float_pow x n = (if float_overflow \<le> \<bar>x ^ n\<bar> then Inl OverflowError else Inr (x ^ n))"

definition backoff_delay :: "rate_limit_config \<Rightarrow> nat \<Rightarrow> error + real" where
  "backoff_delay cfg n =
     (case float_pow (backoff_multiplier cfg) n of
        Inl e \<Rightarrow> Inl e
      | Inr p \<Rightarrow> Inr (min (base_delay cfg * p) (max_delay cfg)))"

text \<open>\<open>jitter\<close> is the value drawn by \<open>random.uniform(*jitter_range)\<close>.\<close>

definition actual_delay :: "rate_limit_config \<Rightarrow> nat \<Rightarrow> real \<Rightarrow> error + real" where
  "actual_delay cfg n jitter =
     (case backoff_delay cfg n of Inl e \<Rightarrow> Inl e | Inr delay \<Rightarrow> Inr (delay * jitter))"

record loop_vars =
  consecutive_failures :: nat
  consecutive_rate_limits :: nat
  last_success_time :: real

text \<open>
  One pass through the body of \<open>while self.running\<close> in \<open>monitor_streamer\<close>.  The
  surroundings give the clock readings, the jitter drawn, the course of the connection
  attempt and the number of ten-second polls the loop makes while the session stays
  active.  The result lists the \<open>asyncio.sleep\<close> calls of the pass in order; the
  \<open>running\<close> flag is read again only after the pass, or between two polls.
\<close>

record loop_env =
  current_time :: real
  jitter :: real
  conn :: conn_env
  t_success :: real
  polls :: nat

definition monitor_iteration ::
  "(pystr \<Rightarrow> pystr) \<Rightarrow> rate_limit_config \<Rightarrow> loop_env \<Rightarrow> scraper \<Rightarrow> loop_vars \<Rightarrow> pystr
     \<Rightarrow> (scraper \<times> loop_vars \<times> real list) option" where
  "monitor_iteration lower cfg env st vars username =
     (case (if consecutive_failures vars > 0
            then (case actual_delay cfg (consecutive_failures vars) (jitter env) of
                    Inl e \<Rightarrow> Inl e
                  | Inr d \<Rightarrow> Inr [d])
            else Inr []) of
        Inl e \<Rightarrow>
          Some (st, vars\<lparr>consecutive_failures := consecutive_failures vars + 1\<rparr>, [60])
      | Inr sleeps \<Rightarrow>
          (let cooldown_remaining =
                 rate_limit_cooldown cfg - (current_time env - last_success_time vars)
           in if consecutive_rate_limits vars \<ge> 3 \<and> cooldown_remaining > 0
              then Some (st, vars, sleeps @ [min cooldown_remaining 300])
              else
                (case create_streamer_client lower cfg (conn env) st username of
                   None \<Rightarrow> None
                 | Some (st1, success, limited) \<Rightarrow>
                     if limited
                     then Some (st1,
                            vars\<lparr>consecutive_failures := consecutive_failures vars + 1,
                                 consecutive_rate_limits := consecutive_rate_limits vars + 1\<rparr>,
                            sleeps)
                     else
                       (let st2 = st1\<lparr>active_clients := active_clients st1 - {username}\<rparr>
                        in if success
                           then Some (st2,
                                  \<lparr>consecutive_failures = 0, consecutive_rate_limits = 0,
                                   last_success_time = t_success env\<rparr>,
                                  sleeps @ replicate (polls env) 10)
                           else Some (st2,
                                  vars\<lparr>consecutive_failures := consecutive_failures vars + 1\<rparr>,
                                  sleeps)))))"

text \<open>
  Stand-ins for \<open>str.lower\<close> and NFC normalisation on the concrete inputs used below:
  on text whose only cased characters are ASCII letters \<open>str.lower\<close> maps A-Z to a-z,
  and such text and the single-code-point emoji are already in normal form C.
\<close>

definition ascii_lower :: "pystr \<Rightarrow> pystr" where
  "ascii_lower s = map (\<lambda>c. if 0x41 \<le> c \<and> c \<le> 0x5A then c + 0x20 else c) s"

definition nfc_id :: "pystr \<Rightarrow> pystr" where
  "nfc_id s = s"

text \<open>Comment events delivered one after the other for one streamer.\<close>

fun feed_comments ::
  "(pystr \<Rightarrow> pystr) \<Rightarrow> (pystr \<Rightarrow> pystr) \<Rightarrow> scraper \<Rightarrow> pystr \<Rightarrow> (pystr \<times> pystr \<times> real) list
     \<Rightarrow> scraper" where
  "feed_comments lower nfc st username [] = st"
| "feed_comments lower nfc st username ((commenter, content, t) # evs) =
     feed_comments lower nfc (save_event lower nfc st username Comment commenter content t)
       username evs"

text \<open>
  Two passes of the monitoring loop for the concrete runs below: one that meets an
  active global rate limit, and one whose connection attempt fails because the streamer
  is offline.
\<close>

definition limited_env :: loop_env where
  "limited_env =
     \<lparr>current_time = 400, jitter = 1,
      conn = \<lparr>available = True, t_check = 500, t_connect = 505, t_except = 506,
              outcome = Started\<rparr>,
      t_success = 510, polls = 0\<rparr>"

definition offline_env :: loop_env where
  "offline_env =
     \<lparr>current_time = 1000, jitter = 1,
      conn = \<lparr>available = True, t_check = 2800, t_connect = 2805, t_except = 2806,
              outcome = Start_raised (ustr ''user offline'')\<rparr>,
      t_success = 0, polls = 0\<rparr>"

text \<open>
  A full ledger for the concrete runs below: 1000 entries with distinct 32-character
  keys and one common timestamp, as \<open>comment_history.json\<close> may hold after a busy hour.
\<close>

definition filler_key :: "nat \<Rightarrow> string" where
  "filler_key i =
     CHR ''0'' # replicate 28 (CHR ''0'') @
       [char_of (48 + i div 100), char_of (48 + i div 10 mod 10), char_of (48 + i mod 10)]"

definition full_ledger :: "real \<Rightarrow> ledger" where
  "full_ledger t = map (\<lambda>i. (filler_key i, t)) [0..<1000]"

section \<open>Properties of the ledger operations\<close>

lemma purge_old_fresh: "(h, t) \<in> set (purge_old d now) \<Longrightarrow> \<not> t < now - 3600"
  by (auto simp: purge_old_def)

lemma keep_recent_subset: "set (keep_recent d) \<subseteq> set d"
  by (auto simp: keep_recent_def dest: in_set_takeD)

lemma keep_recent_length: "length (keep_recent d) \<le> 1000"
  by (simp add: keep_recent_def)

lemma keep_recent_small: "length d \<le> 1000 \<Longrightarrow> keep_recent d = d"
  by (simp add: keep_recent_def)

lemma keep_recent_most_recent:
  assumes "1000 < length d"
  shows "length (keep_recent d) = 500 \<and>
         (\<exists>dropped. mset d = mset (keep_recent d) + mset dropped \<and>
            (\<forall>x \<in> set (keep_recent d). \<forall>y \<in> set dropped. snd y \<le> snd x))"
proof -
  let ?s = "sort_key (\<lambda>(h, t). - t) d"
  have k: "keep_recent d = take 500 ?s" using assms by (simp add: keep_recent_def)
  have len: "length (keep_recent d) = 500" using assms by (simp add: k)
  have srt: "sorted (map (\<lambda>(h, t). - t) (take 500 ?s @ drop 500 ?s))" by simp
  have m: "mset d = mset (take 500 ?s) + mset (drop 500 ?s)"
    by (metis append_take_drop_id mset_append mset_sort)
  have ord: "\<forall>x \<in> set (take 500 ?s). \<forall>y \<in> set (drop 500 ?s). snd y \<le> snd x"
    using srt unfolding map_append sorted_append by (auto simp: case_prod_beta)
  show ?thesis using len m ord k by auto
qed

lemma is_duplicate_recorded:
  assumes "is_duplicate_comment lower nfc rc username commenter comment now = (rc', Inr False)"
    and "md5_hex (commenter @ ustr ''|'' @ strip comment) = Some ke"
    and "md5_hex (commenter @ ustr ''|'' @ nfc (strip (lower comment))) = Some ks"
  shows "rc' = rc(username \<mapsto>
           keep_recent (purge_old (dict_set (dict_set (ledger_of rc username) ke now) ks now) now))"
  using assms
  by (auto simp: is_duplicate_comment_def Let_def cleanup_old_comments_def
           split: if_splits sum.splits)

lemma dict_set_map_of: "map_of (dict_set d k v) = (map_of d)(k \<mapsto> v)"
  by (induction d k v rule: dict_set.induct) (auto simp: fun_eq_iff)

lemma dict_set_keys: "fst ` set (dict_set d k v) = insert k (fst ` set d)"
  by (induction d k v rule: dict_set.induct) auto

lemma dict_set_distinct: "distinct (map fst d) \<Longrightarrow> distinct (map fst (dict_set d k v))"
proof (induction d k v rule: dict_set.induct)
  case (1 k v)
  then show ?case by simp
next
  case (2 k' v' d k v)
  then show ?case using dict_set_keys [of d k v] by (auto simp: image_iff)
qed

lemma dict_set_entries: "set (dict_set d k v) \<subseteq> insert (k, v) (set d)"
  by (induction d k v rule: dict_set.induct) auto

lemma dict_set_length: "length d \<le> length (dict_set d k v)"
  by (induction d k v rule: dict_set.induct) auto

lemma first_in_take_sorted:
  assumes srt: "sorted (map f s)" and x: "x \<in> set s" and dist: "distinct s"
    and A: "\<forall>y \<in> set s. f y \<le> f x \<longrightarrow> y \<in> A" and fin: "finite A" and card: "card A \<le> n"
  shows "x \<in> set (take n s)"
proof -
  from x obtain i where i: "i < length s" "s ! i = x" by (auto simp: in_set_conv_nth)
  have sub: "set (take (Suc i) s) \<subseteq> A"
  proof
    fix y assume "y \<in> set (take (Suc i) s)"
    then obtain j where j: "j < Suc i" "j < length s" "s ! j = y"
      by (auto simp: in_set_conv_nth)
    have "f (s ! j) \<le> f (s ! i)"
      using srt j i sorted_nth_mono [of "map f s" j i] by simp
    with j i A show "y \<in> A" by auto
  qed
  have "distinct (take (Suc i) s)" using dist by simp
  then have "card (set (take (Suc i) s)) = Suc i" using i by (simp add: distinct_card)
  moreover have "card (set (take (Suc i) s)) \<le> card A" using sub fin by (simp add: card_mono)
  ultimately have "i < n" using card by simp
  with i show ?thesis by (auto simp: in_set_conv_nth)
qed

lemma sort_key_distinct_keys:
  "distinct (map fst d) \<Longrightarrow> distinct (map fst (sort_key f d))"
proof -
  assume "distinct (map fst d)"
  moreover have "mset (map fst (sort_key f d)) = mset (map fst d)" by simp
  ultimately show ?thesis by (metis mset_eq_imp_distinct_iff)
qed

lemma keep_recent_retains:
  assumes dist: "distinct (map fst d)" and x: "(k, now) \<in> set d"
    and top: "\<forall>(h, t) \<in> set d. now \<le> t \<longrightarrow> (h, t) \<in> A" and fin: "finite A" and card: "card A \<le> 500"
  shows "map_of (keep_recent d) k = Some now"
proof (cases "1000 < length d")
  case False
  then show ?thesis using dist x by (simp add: keep_recent_def)
next
  case True
  let ?f = "\<lambda>(h, t). - t :: real"
  let ?s = "sort_key ?f d"
  have k: "keep_recent d = take 500 ?s" using True by (simp add: keep_recent_def)
  have ds: "distinct (map fst ?s)" using dist by (rule sort_key_distinct_keys)
  then have d1: "distinct ?s" by (simp add: distinct_map)
  have "\<forall>y \<in> set ?s. ?f y \<le> ?f (k, now) \<longrightarrow> y \<in> A" using top by auto
  then have "(k, now) \<in> set (take 500 ?s)"
    using first_in_take_sorted [of ?f ?s "(k, now)" A 500] d1 x fin card by simp
  moreover have "distinct (map fst (take 500 ?s))" using ds by (simp add: take_map [symmetric])
  ultimately show ?thesis using k by simp
qed

lemma recorded_keys_kept:
  assumes dist: "distinct (map fst d)" and old: "\<forall>(h, t) \<in> set d. t < now"
  shows "map_of (keep_recent (purge_old (dict_set (dict_set d ke now) ks now) now)) ke = Some now"
    and "map_of (keep_recent (purge_old (dict_set (dict_set d ke now) ks now) now)) ks = Some now"
proof -
  let ?d2 = "dict_set (dict_set d ke now) ks now"
  let ?d1 = "purge_old ?d2 now"
  let ?A = "{(ke, now), (ks, now)}"
  have dist2: "distinct (map fst ?d2)" using dist by (simp add: dict_set_distinct)
  have sub2: "set ?d2 \<subseteq> insert (ks, now) (insert (ke, now) (set d))"
    using dict_set_entries [of "dict_set d ke now" ks now] dict_set_entries [of d ke now] by auto
  have m: "map_of ?d2 ke = Some now" "map_of ?d2 ks = Some now"
    by (simp_all add: dict_set_map_of)
  then have in2: "(ke, now) \<in> set ?d2" "(ks, now) \<in> set ?d2" by (auto dest: map_of_SomeD)
  have dist1: "distinct (map fst ?d1)" using dist2 by (simp add: purge_old_def distinct_map_filter)
  have in1: "(ke, now) \<in> set ?d1" "(ks, now) \<in> set ?d1" using in2 by (auto simp: purge_old_def)
  have top: "\<forall>(h, t) \<in> set ?d1. now \<le> t \<longrightarrow> (h, t) \<in> ?A"
    using sub2 old by (fastforce simp: purge_old_def)
  have card: "card ?A \<le> 500" by (simp add: card_insert_if)
  show "map_of (keep_recent ?d1) ke = Some now"
    using keep_recent_retains [OF dist1 in1(1) top _ card] by simp
  show "map_of (keep_recent ?d1) ks = Some now"
    using keep_recent_retains [OF dist1 in1(2) top _ card] by simp
qed

lemma rc0_id: "rc username = Some d \<Longrightarrow> rc(username \<mapsto> ledger_of rc username) = rc"
  by (auto simp: ledger_of_def)

lemma suppress_exact:
  assumes "md5_hex (commenter @ ustr ''|'' @ strip comment) = Some ke"
    and "map_of (ledger_of rc username) ke = Some t0" and "now - t0 < 30"
  shows "is_duplicate_comment lower nfc rc username commenter comment now = (rc, Inr True)"
proof -
  from assms(2) obtain d where "rc username = Some d"
    by (cases "rc username") (auto simp: ledger_of_def)
  then have "rc(username \<mapsto> ledger_of rc username) = rc" by (rule rc0_id)
  then show ?thesis using assms
    by (simp add: is_duplicate_comment_def Let_def seen_within_def)
qed


section \<open>Digests of the keys used in the concrete runs\<close>

lemma md5_bar: "md5_hex [117, 49, 124] = Some ''833597e5b182cc5af9fb3e7a6c0db77e''"
  by code_simp

lemma md5_a: "md5_hex [117, 49, 124, 97] = Some ''075d9f0d017aacac917e7fdbeb66f129''"
  by code_simp

lemma md5_b: "md5_hex [117, 49, 124, 98] = Some ''733baf348018d83e604eaba1efaf168d''"
  by code_simp

lemma md5_c: "md5_hex [117, 49, 124, 99] = Some ''ee2d4747f72101ae2e653278fbb65441''"
  by code_simp

lemma md5_d: "md5_hex [117, 49, 124, 100] = Some ''d5fe35bde21affb9ffb0285b1602daed''"
  by code_simp

lemma md5_hi: "md5_hex [117, 49, 124, 104, 105] = Some ''7613dfce7cc6a89ca14cb2396c1d9365''"
  by code_simp

lemma md5_Hi_cap: "md5_hex [117, 49, 124, 72, 105] = Some ''a32beffac3be287329005bee59bc43b8''"
  by code_simp



lemma md5_fire: "md5_hex [117, 49, 124, 128293, 128293, 128293] = Some ''90ea19cea2e74990df75c734f8be4995''"
  by code_simp

lemmas eval_defs = is_duplicate_comment_def save_event_def write_event_def Let_def seen_within_def
  recent_from_user_def startswith_def cleanup_old_comments_def purge_old_def keep_recent_def
  ledger_of_def is_emoji_only_message_def emoji_char_def strip_def isspace_def ustr_def
  ascii_lower_def nfc_id_def init_scraper_def clean_content_def session_header_def default_config_def

section \<open>Suppressed and recorded events\<close>

lemma save_event_duplicate:
  assumes "is_duplicate_comment lower nfc (recent_comments st) username commenter content now
             = (recent_comments st, Inr True)"
  shows "save_event lower nfc st username Comment commenter content now
           = st\<lparr>duplicates_filtered := duplicates_filtered st + 1\<rparr>"
  using assms by (simp add: save_event_def)

lemma feed_exact_repeats:
  assumes ke: "md5_hex (commenter @ ustr ''|'' @ body) = Some ke"
    and seen: "map_of (ledger_of (recent_comments st) username) ke = Some t0"
    and evs: "\<forall>(c, text, t) \<in> set evs. c = commenter \<and> strip text = body \<and> t - t0 < 30"
  shows "feed_comments lower nfc st username evs
           = st\<lparr>duplicates_filtered := duplicates_filtered st + length evs\<rparr>"
  using seen evs
proof (induction evs arbitrary: st)
  case Nil
  then show ?case by simp
next
  case (Cons ev evs)
  obtain c m t where ev: "ev = (c, m, t)" by (cases ev)
  with Cons.prems have c: "c = commenter" "strip m = body" "t - t0 < 30" by auto
  have dup: "is_duplicate_comment lower nfc (recent_comments st) username commenter m t
               = (recent_comments st, Inr True)"
    using ke c Cons.prems(1) by (intro suppress_exact [where ke = ke and ?t0.0 = t0]) auto
  let ?st = "st\<lparr>duplicates_filtered := duplicates_filtered st + 1\<rparr>"
  have step: "save_event lower nfc st username Comment commenter m t = ?st"
    using dup by (rule save_event_duplicate)
  have "feed_comments lower nfc ?st username evs
          = ?st\<lparr>duplicates_filtered := duplicates_filtered ?st + length evs\<rparr>"
    using Cons.prems by (intro Cons.IH) auto
  then show ?case using ev c step by simp
qed

lemma not_duplicate_keys:
  assumes "is_duplicate_comment lower nfc rc username commenter comment now = (rc', Inr False)"
  obtains ke ks where "md5_hex (commenter @ ustr ''|'' @ strip comment) = Some ke"
    and "md5_hex (commenter @ ustr ''|'' @ nfc (strip (lower comment))) = Some ks"
  using assms
  by (auto simp: is_duplicate_comment_def Let_def split: option.splits if_splits sum.splits)

lemma recorded_after_first:
  assumes first: "is_duplicate_comment lower nfc rc username commenter comment now = (rc', Inr False)"
    and ke: "md5_hex (commenter @ ustr ''|'' @ strip comment) = Some ke"
    and ks: "md5_hex (commenter @ ustr ''|'' @ nfc (strip (lower comment))) = Some ks"
    and dist: "distinct (map fst (ledger_of rc username))"
    and old: "\<forall>(h, t) \<in> set (ledger_of rc username). t < now"
  shows "map_of (ledger_of rc' username) ke = Some now"
    and "map_of (ledger_of rc' username) ks = Some now"
proof -
  have rc': "rc' = rc(username \<mapsto>
      keep_recent (purge_old (dict_set (dict_set (ledger_of rc username) ke now) ks now) now))"
    by (rule is_duplicate_recorded [OF first ke ks])
  show "map_of (ledger_of rc' username) ke = Some now"
    using recorded_keys_kept(1) [OF dist old, of ke ks] by (simp add: rc' ledger_of_def)
  show "map_of (ledger_of rc' username) ks = Some now"
    using recorded_keys_kept(2) [OF dist old, of ke ks] by (simp add: rc' ledger_of_def)
qed

lemma save_event_first:
  assumes "is_duplicate_comment lower nfc (recent_comments st) username commenter content now = (rc', Inr False)"
  shows "recent_comments (save_event lower nfc st username Comment commenter content now) = rc'"
    and "comments_captured (save_event lower nfc st username Comment commenter content now)
           = comments_captured st + (if is_emoji_only_message content then 0 else 1)"
    and "duplicates_filtered (save_event lower nfc st username Comment commenter content now)
           = duplicates_filtered st + (if is_emoji_only_message content then 1 else 0)"
  using assms by (simp_all add: save_event_def write_event_def Let_def)


section \<open>The emoji-only filter and the three strategies\<close>

lemma strip_empty_iff: "strip s = [] \<longleftrightarrow> (\<forall>c \<in> set s. isspace c)"
proof
  assume e: "strip s = []"
  show "\<forall>c \<in> set s. isspace c"
  proof (rule ccontr)
    assume "\<not> (\<forall>c \<in> set s. isspace c)"
    then have ne: "dropWhile isspace s \<noteq> []" by simp
    then have "\<not> isspace (hd (dropWhile isspace s))" by (rule hd_dropWhile)
    moreover have "hd (dropWhile isspace s) \<in> set (dropWhile isspace s)" using ne by simp
    ultimately have "\<not> (\<forall>c \<in> set (rev (dropWhile isspace s)). isspace c)" by auto
    then have "dropWhile isspace (rev (dropWhile isspace s)) \<noteq> []" by simp
    with e show False by (simp add: strip_def)
  qed
next
  assume "\<forall>c \<in> set s. isspace c"
  then have d: "dropWhile isspace s = []" by simp
  show "strip s = []" unfolding strip_def d by simp
qed

lemma is_emoji_only_iff:
  "is_emoji_only_message content \<longleftrightarrow> (\<forall>c \<in> set content. isspace c \<or> emoji_char c)"
proof -
  let ?ns = "filter (\<lambda>c. c \<noteq> 0x20 \<and> c \<noteq> 0x0A \<and> c \<noteq> 0x0D \<and> c \<noteq> 0x09) content"
  have sp: "isspace c" if "\<not> (c \<noteq> 0x20 \<and> c \<noteq> 0x0A \<and> c \<noteq> 0x0D \<and> c \<noteq> 0x09)" for c
    using that by (auto simp: isspace_def)
  have rest: "(\<forall>c \<in> set (filter (\<lambda>c. \<not> emoji_char c) ?ns). isspace c)
                \<longleftrightarrow> (\<forall>c \<in> set content. isspace c \<or> emoji_char c)"
    using sp by auto
  have empty: "?ns = [] \<Longrightarrow> \<forall>c \<in> set content. isspace c \<or> emoji_char c"
    using sp by (auto simp: filter_empty_conv)
  show ?thesis
    unfolding is_emoji_only_message_def Let_def strip_empty_iff rest
    using empty by auto
qed

lemma utf8_encode_append:
  "utf8_encode (a @ b) =
     (case utf8_encode a of
        None \<Rightarrow> None
      | Some ra \<Rightarrow> (case utf8_encode b of None \<Rightarrow> None | Some rb \<Rightarrow> Some (ra @ rb)))"
  by (induction a) (auto split: option.splits)

lemma prefix_hash_exists:
  assumes "md5_hex (commenter @ ustr ''|'' @ rest) = Some k"
  shows "\<exists>ph. md5_hex (commenter @ ustr ''|'') = Some ph"
proof -
  have "(commenter @ ustr ''|'') @ rest = commenter @ ustr ''|'' @ rest" by simp
  then have "utf8_encode ((commenter @ ustr ''|'') @ rest) \<noteq> None"
    using assms by (auto simp: md5_hex_def)
  then show ?thesis
    unfolding utf8_encode_append [of "commenter @ ustr ''|''" rest]
    by (auto simp: md5_hex_def split: option.splits)
qed

lemma recent_from_user_total:
  assumes "md5_hex (commenter @ ustr ''|'' @ rest) = Some k"
  shows "\<exists>ts. recent_from_user d commenter now = Inr ts"
  using prefix_hash_exists [OF assms] by (auto simp: recent_from_user_def)

lemma is_duplicate_comment_cases:
  assumes ke: "md5_hex (commenter @ ustr ''|'' @ strip comment) = Some ke"
    and ks: "md5_hex (commenter @ ustr ''|'' @ nfc (strip (lower comment))) = Some ks"
    and rf: "recent_from_user (ledger_of rc username) commenter now = Inr ts"
  shows "is_duplicate_comment lower nfc rc username commenter comment now =
     (if seen_within (ledger_of rc username) ke now 30 \<or>
         seen_within (ledger_of rc username) ks now 10 \<or> 3 \<le> length ts
      then (rc, Inr True)
      else (rc(username \<mapsto>
              keep_recent (purge_old (dict_set (dict_set (ledger_of rc username) ke now) ks now) now)),
            Inr False))"
proof -
  have triv: "rc(username \<mapsto> ledger_of rc username) = rc" if "ledger_of rc username \<noteq> []"
    using that by (cases "rc username") (auto simp: ledger_of_def)
  have ne: "ledger_of rc username \<noteq> []"
    if "seen_within (ledger_of rc username) ke now 30 \<or>
        seen_within (ledger_of rc username) ks now 10 \<or> 3 \<le> length ts"
    using that rf by (auto simp: seen_within_def recent_from_user_def split: option.splits)
  show ?thesis
    using ke ks rf triv ne
    by (auto simp: is_duplicate_comment_def Let_def cleanup_old_comments_def)
qed


section \<open>A full ledger\<close>

lemma full_ledger_length: "length (full_ledger t) = 1000"
  by (simp add: full_ledger_def)

lemma full_ledger_entry: "(h, t') \<in> set (full_ledger t) \<Longrightarrow> hd h = CHR ''0'' \<and> t' = t"
  by (auto simp: full_ledger_def filler_key_def)

lemma map_of_other_head:
  assumes "\<forall>(h, t) \<in> set d. hd h = c" and "hd k \<noteq> c"
  shows "map_of d k = None"
proof (rule ccontr)
  assume "map_of d k \<noteq> None"
  then obtain t where "(k, t) \<in> set d" by (auto dest: map_of_SomeD)
  with assms show False by auto
qed

lemma dict_set_absent: "map_of d k = None \<Longrightarrow> dict_set d k v = d @ [(k, v)]"
  by (induction d k v rule: dict_set.induct) (auto split: if_splits)

lemma dict_set_last: "map_of d k = None \<Longrightarrow> dict_set (d @ [(k, v)]) k v' = d @ [(k, v')]"
  by (induction d) (auto split: if_splits)

lemma startswith_other_head:
  assumes "hd h \<noteq> hd p" and "p \<noteq> []"
  shows "\<not> startswith h p"
proof
  assume "startswith h p"
  then have "take (length p) h = p" by (simp add: startswith_def)
  then have "hd (take (length p) h) = hd p" by simp
  moreover have "h \<noteq> []" using \<open>take (length p) h = p\<close> assms(2) by auto
  ultimately show False using assms by (cases h; cases p) auto
qed

lemma evicted_by_cap:
  assumes ke: "md5_hex (commenter @ ustr ''|'' @ strip comment) = Some ke"
    and ks: "md5_hex (commenter @ ustr ''|'' @ nfc (strip (lower comment))) = Some ke"
    and ph: "md5_hex (commenter @ ustr ''|'') = Some ph"
    and hk: "hd ke \<noteq> CHR ''0''" and hp: "hd (take 8 ph) \<noteq> CHR ''0''" "take 8 ph \<noteq> []"
    and future: "now < t"
  shows "is_duplicate_comment lower nfc [username \<mapsto> full_ledger t] username commenter comment now
           = ([username \<mapsto> take 500 (full_ledger t)], Inr False)"
proof -
  let ?d = "full_ledger t"
  have heads: "\<forall>(h, t') \<in> set ?d. hd h = CHR ''0''" using full_ledger_entry by blast
  have absent: "map_of ?d ke = None" by (rule map_of_other_head [OF heads hk])
  have led: "ledger_of [username \<mapsto> ?d] username = ?d" by (simp add: ledger_of_def)
  have "filter (\<lambda>(hash_val, timestamp). startswith hash_val (take 8 ph) \<and> now - timestamp < 5) ?d = []"
    using heads hp startswith_other_head [of _ "take 8 ph"] by (fastforce simp: filter_empty_conv)
  then have rf: "recent_from_user (ledger_of [username \<mapsto> ?d] username) commenter now = Inr []"
    using ph by (simp add: recent_from_user_def led)
  have rec: "dict_set (dict_set ?d ke now) ke now = ?d @ [(ke, now)]"
    using absent by (simp add: dict_set_absent dict_set_last)
  have "\<forall>(h, t') \<in> set (?d @ [(ke, now)]). \<not> t' < now - 3600"
    using future full_ledger_entry by fastforce
  then have purge: "purge_old (?d @ [(ke, now)]) now = ?d @ [(ke, now)]"
    unfolding purge_old_def Let_def by (intro filter_True) auto
  have "map (\<lambda>(h, t'). - t') ?d = replicate 1000 (- t)"
    by (simp add: full_ledger_def comp_def map_replicate_const)
  then have "sorted (map (\<lambda>(h, t'). - t') (?d @ [(ke, now)]))"
    using future by (simp add: sorted_append)
  then have srt: "sort_key (\<lambda>(h, t'). - t') (?d @ [(ke, now)]) = ?d @ [(ke, now)]"
    by (rule sort_key_id_if_sorted)
  have keep: "keep_recent (?d @ [(ke, now)]) = take 500 ?d"
    by (simp add: keep_recent_def srt full_ledger_length)
  have "\<not> (seen_within ?d ke now 30 \<or> seen_within ?d ke now 10 \<or> 3 \<le> length ([] :: real list))"
    using absent by (simp add: seen_within_def)
  then show ?thesis
    using is_duplicate_comment_cases [where lower = lower and nfc = nfc, OF ke ks rf]
    by (simp add: led rec purge keep)
qed

lemma take_full_ledger_absent:
  assumes "hd k \<noteq> CHR ''0''"
  shows "map_of (take n (full_ledger t)) k = None"
proof (rule map_of_other_head [OF _ assms])
  show "\<forall>(h, t') \<in> set (take n (full_ledger t)). hd h = CHR ''0''"
    using full_ledger_entry by (fastforce dest: in_set_takeD)
qed

lemma char_of_small_inj:
  fixes a b :: nat
  assumes "a < 256" "b < 256" "(char_of a :: char) = char_of b"
  shows "a = b"
proof -
  have "of_char (char_of a :: char) = (of_char (char_of b :: char) :: nat)" using assms(3) by simp
  then have "a mod 256 = b mod 256" by (simp only: of_char_of)
  with assms show ?thesis by simp
qed

lemma filler_key_inj:
  assumes i: "i < 1000" and j: "j < 1000" and e: "filler_key i = filler_key j"
  shows "i = j"
proof -
  from e have c: "(char_of (48 + i div 100) :: char) = char_of (48 + j div 100)"
    "(char_of (48 + i div 10 mod 10) :: char) = char_of (48 + j div 10 mod 10)"
    "(char_of (48 + i mod 10) :: char) = char_of (48 + j mod 10)"
    unfolding filler_key_def by blast+
  have "48 + i div 100 = 48 + j div 100"
    using i j by (intro char_of_small_inj [OF _ _ c(1)]) auto
  moreover have "48 + i div 10 mod 10 = 48 + j div 10 mod 10"
    using i j by (intro char_of_small_inj [OF _ _ c(2)]) auto
  moreover have "48 + i mod 10 = 48 + j mod 10"
    using i j by (intro char_of_small_inj [OF _ _ c(3)]) auto
  ultimately have d: "i div 100 = j div 100" "i div 10 mod 10 = j div 10 mod 10" "i mod 10 = j mod 10"
    by simp_all
  have "i div 10 = 10 * (i div 10 div 10) + i div 10 mod 10" by simp
  moreover have "j div 10 = 10 * (j div 10 div 10) + j div 10 mod 10" by simp
  moreover have "i div 10 div 10 = i div 100" "j div 10 div 10 = j div 100"
    by (simp_all add: div_mult2_eq [symmetric])
  ultimately have "i div 10 = j div 10" using d by simp
  moreover have "i = 10 * (i div 10) + i mod 10" "j = 10 * (j div 10) + j mod 10" by simp_all
  ultimately show ?thesis using d by metis
qed

lemma full_ledger_distinct: "distinct (map fst (full_ledger t))"
proof -
  have "inj_on filler_key {0..<1000}"
    by (rule inj_onI) (simp add: filler_key_inj)
  then show ?thesis by (simp add: full_ledger_def comp_def distinct_map)
qed


lemma map_of_none_if:
  assumes "\<forall>(h, t) \<in> set d. h \<noteq> k"
  shows "map_of d k = None"
proof (rule ccontr)
  assume "map_of d k \<noteq> None"
  then obtain t where "(k, t) \<in> set d" by (auto dest: map_of_SomeD)
  with assms show False by auto
qed

lemma full_ledger_second: "(h, t') \<in> set (full_ledger t) \<Longrightarrow> hd (tl h) = CHR ''0''"
  by (auto simp: full_ledger_def filler_key_def)

lemma latest_last_sorts_first:
  assumes less: "\<forall>y \<in> set xs. f x < f y" and srt: "sorted (map f xs)"
  shows "sort_key f (xs @ [x]) = x # xs"
proof (rule properties_for_sort_key)
  show "mset (x # xs) = mset (xs @ [x])" by simp
next
  fix k assume "k \<in> set (x # xs)"
  show "filter (\<lambda>y. f k = f y) (x # xs) = filter (\<lambda>y. f k = f y) (xs @ [x])"
  proof (cases "f k = f x")
    case True
    then have "filter (\<lambda>y. f k = f y) xs = []" using less by (auto simp: filter_empty_conv)
    then show ?thesis using True by simp
  next
    case False
    then show ?thesis by simp
  qed
next
  show "sorted (map f (x # xs))" using less srt by (auto simp: less_imp_le)
qed

lemma recorded_on_full_ledger:
  assumes hk: "hd ke \<noteq> CHR ''0''" and hs: "hd sk = CHR ''0''"
  shows "dict_set (dict_set ((sk, t_old) # full_ledger t) ke now) ke now
           = ((sk, t_old) # full_ledger t) @ [(ke, now)]"
proof -
  have "\<forall>(h, t') \<in> set ((sk, t_old) # full_ledger t). hd h = CHR ''0''"
    using full_ledger_entry hs by auto
  then have "map_of ((sk, t_old) # full_ledger t) ke = None"
    using hk by (rule map_of_other_head)
  then show ?thesis by (simp only: dict_set_absent dict_set_last)
qed

lemma purged_full_ledger:
  assumes stale: "t_old < now - 3600" and fresh: "\<not> t < now - 3600"
  shows "purge_old (((sk, t_old) # full_ledger t) @ [(ke, now)]) now = full_ledger t @ [(ke, now)]"
proof -
  have "filter (\<lambda>(h, t'). \<not> t' < now - 3600) (full_ledger t) = full_ledger t"
    using fresh full_ledger_entry by (intro filter_True) auto
  then show ?thesis using stale by (simp add: purge_old_def Let_def)
qed

lemma capped_full_ledger:
  assumes ke: "md5_hex (commenter @ ustr ''|'' @ strip comment) = Some ke"
    and ks: "md5_hex (commenter @ ustr ''|'' @ nfc (strip (lower comment))) = Some ke"
    and ph: "md5_hex (commenter @ ustr ''|'') = Some ph"
    and hk: "hd ke \<noteq> CHR ''0''" and hp: "hd (take 8 ph) \<noteq> CHR ''0''" "take 8 ph \<noteq> []"
    and hs: "hd sk = CHR ''0''"
    and stale: "t_old < now - 3600" and fresh: "\<not> t < now - 3600" and past: "t < now"
  shows "is_duplicate_comment lower nfc [username \<mapsto> (sk, t_old) # full_ledger t] username
           commenter comment now
           = ([username \<mapsto> (ke, now) # take 499 (full_ledger t)], Inr False)"
proof -
  let ?d = "(sk, t_old) # full_ledger t"
  let ?rc = "[username \<mapsto> ?d]"
  have heads: "\<forall>(h, t') \<in> set ?d. hd h = CHR ''0''" using full_ledger_entry hs by auto
  have absent: "map_of ?d ke = None" by (rule map_of_other_head [OF heads hk])
  have led: "ledger_of ?rc username = ?d" by (simp add: ledger_of_def)
  have "filter (\<lambda>(hash_val, timestamp). startswith hash_val (take 8 ph) \<and> now - timestamp < 5) ?d = []"
    using heads hp startswith_other_head [of _ "take 8 ph"] by (fastforce simp: filter_empty_conv)
  then have rf: "recent_from_user (ledger_of ?rc username) commenter now = Inr []"
    using ph by (simp add: recent_from_user_def led)
  have rec: "dict_set (dict_set ?d ke now) ke now = ?d @ [(ke, now)]"
    by (rule recorded_on_full_ledger [OF hk hs])
  have purge: "purge_old (?d @ [(ke, now)]) now = full_ledger t @ [(ke, now)]"
    by (rule purged_full_ledger [OF stale fresh])
  have "map (\<lambda>(h, t'). - t') (full_ledger t) = replicate 1000 (- t)"
    by (simp add: full_ledger_def comp_def map_replicate_const)
  then have srt: "sorted (map (\<lambda>(h, t'). - t') (full_ledger t))" by simp
  have "\<forall>y \<in> set (full_ledger t). (\<lambda>(h, t'). - t') (ke, now) < (\<lambda>(h, t'). - t') y"
    using past full_ledger_entry by fastforce
  then have sort: "sort_key (\<lambda>(h, t'). - t') (full_ledger t @ [(ke, now)]) = (ke, now) # full_ledger t"
    using srt by (rule latest_last_sorts_first)
  have keep: "keep_recent (full_ledger t @ [(ke, now)]) = (ke, now) # take 499 (full_ledger t)"
    by (simp add: keep_recent_def sort full_ledger_length)
  have nc: "\<not> (seen_within (ledger_of ?rc username) ke now 30 \<or>
               seen_within (ledger_of ?rc username) ke now 10 \<or> 3 \<le> length ([] :: real list))"
    using absent by (simp add: led seen_within_def)
  have "is_duplicate_comment lower nfc ?rc username commenter comment now
          = (?rc(username \<mapsto>
               keep_recent (purge_old (dict_set (dict_set (ledger_of ?rc username) ke now) ke now) now)),
             Inr False)"
    using is_duplicate_comment_cases [where lower = lower and nfc = nfc, OF ke ks rf]
    unfolding if_not_P [OF nc] .
  then show ?thesis unfolding led rec purge keep by simp
qed

section \<open>Connection attempts and backoff\<close>

lemma connect_body_limited:
  assumes "is_globally_limited st (t_check env) \<or> is_streamer_limited st username (t_check env)"
  shows "connect_body lower cfg env st username = (st, False, True)"
  using assms by (auto simp: connect_body_def)

lemma failure_path_records_rate_limit:
  assumes "available env" and "0 < connection_semaphore st"
    and "\<not> is_globally_limited st (t_check env)" and "\<not> is_streamer_limited st username (t_check env)"
    and "outcome env = Create_raised msg" and "is_rate_limited lower msg"
  shows "create_streamer_client lower cfg env st username =
           Some (record_rate_limit cfg
                   (st\<lparr>connection_attempts := connection_attempts st + 1,
                       last_connection_time := t_connect env,
                       failed_connections := failed_connections st + 1,
                       rate_limit_hits := rate_limit_hits st + 1\<rparr>)
                   username (t_except env), False, True)"
  using assms
  by (simp add: create_streamer_client_def acquire_def release_def connect_body_def
        handle_failure_def Let_def is_globally_limited_def is_streamer_limited_def
        record_rate_limit_def)


lemma backoff_delay_in_range:
  assumes "\<bar>backoff_multiplier cfg ^ n\<bar> < float_overflow"
  shows "actual_delay cfg n j
           = Inr (min (base_delay cfg * backoff_multiplier cfg ^ n) (max_delay cfg) * j)"
  using assms by (simp add: actual_delay_def backoff_delay_def float_pow_def)

lemma backoff_term_monotone:
  fixes base m cap :: real
  assumes "0 \<le> base" and "1 \<le> m" and "n \<le> n'"
  shows "min (base * m ^ n) cap \<le> min (base * m ^ n') cap"
proof -
  have "m ^ n \<le> m ^ n'" using assms by (simp add: power_increasing)
  then have "base * m ^ n \<le> base * m ^ n'" using assms(1) by (rule mult_left_mono)
  then show ?thesis by (simp add: min_le_iff_disj)
qed

lemma capped_delay_within_jitter:
  fixes base m cap j :: real
  assumes "0 \<le> cap" and "cap < base * m ^ n" and "8 / 10 \<le> j" and "j \<le> 12 / 10"
  shows "cap * (8 / 10) \<le> min (base * m ^ n) cap * j \<and> min (base * m ^ n) cap * j \<le> cap * (12 / 10)"
proof -
  have e: "min (base * m ^ n) cap = cap" using assms(2) by simp
  have "cap * (8 / 10) \<le> cap * j" by (rule mult_left_mono [OF assms(3) assms(1)])
  moreover have "cap * j \<le> cap * (12 / 10)" by (rule mult_left_mono [OF assms(4) assms(1)])
  ultimately show ?thesis unfolding e by blast
qed


section \<open>The claims\<close>

text \<open>
  C1, as amended.  Take a streamer whose ledger holds each key once and only entries
  older than the first event, and a run of comment events of one author with the same
  trimmed text, each less than 30 seconds after the first.  If the deduplicator does not
  suppress the first event, every later event of the run is suppressed: it adds one to
  \<open>duplicates_filtered\<close> and changes nothing else, so the ledger, the session file and
  \<open>comments_captured\<close> stay as the first event left them.  \<open>comments_captured\<close> grows by
  one for the first event unless its text is emoji-only, and not at all for the others.
\<close>

theorem exact_repeats_after_recorded_first:
  assumes first: "is_duplicate_comment lower nfc (recent_comments st) username commenter content t0
                    = (rc1, Inr False)"
    and dist: "distinct (map fst (ledger_of (recent_comments st) username))"
    and old: "\<forall>(h, t) \<in> set (ledger_of (recent_comments st) username). t < t0"
    and evs: "\<forall>(c, text, t) \<in> set evs. c = commenter \<and> strip text = strip content \<and> t - t0 < 30"
  shows "feed_comments lower nfc st username ((commenter, content, t0) # evs)
           = (save_event lower nfc st username Comment commenter content t0)
               \<lparr>duplicates_filtered :=
                  duplicates_filtered (save_event lower nfc st username Comment commenter content t0)
                    + length evs\<rparr>
         \<and> comments_captured (feed_comments lower nfc st username ((commenter, content, t0) # evs))
             = comments_captured st + (if is_emoji_only_message content then 0 else 1)"
proof -
  let ?st1 = "save_event lower nfc st username Comment commenter content t0"
  from first obtain ke ks where ke: "md5_hex (commenter @ ustr ''|'' @ strip content) = Some ke"
    and ks: "md5_hex (commenter @ ustr ''|'' @ nfc (strip (lower content))) = Some ks"
    by (rule not_duplicate_keys)
  have "map_of (ledger_of rc1 username) ke = Some t0"
    by (rule recorded_after_first(1) [OF first ke ks dist old])
  then have seen: "map_of (ledger_of (recent_comments ?st1) username) ke = Some t0"
    using save_event_first(1) [OF first] by simp
  have feed: "feed_comments lower nfc ?st1 username evs
          = ?st1\<lparr>duplicates_filtered := duplicates_filtered ?st1 + length evs\<rparr>"
    by (rule feed_exact_repeats [OF ke seen evs])
  then show ?thesis using save_event_first(2) [OF first] by simp
qed

text \<open>
  C1 as stated fails when the first event of the run is itself suppressed: a suppressed
  event leaves no timestamp behind, so the window is counted from the entry that
  suppressed it.  On a fresh scraper \<open>u1\<close> posts \<open>Hi\<close> at second 0, which records the key
  of \<open>u1|Hi\<close> and, as normalised key, that of \<open>u1|hi\<close>.  The run of \<open>hi\<close> at seconds 5 and
  31 lies within 30 seconds of its first event; the first \<open>hi\<close> is suppressed and the
  later one, 26 seconds after it, is forwarded and captured.
\<close>

theorem first_occurrence_suppressed_repeat_forwarded:
  "comments_captured (feed_comments ascii_lower nfc_id (init_scraper default_config Map.empty)
      (ustr ''streamer'') [(ustr ''u1'', ustr ''Hi'', 0)]) = 1 \<and>
   comments_captured (feed_comments ascii_lower nfc_id (init_scraper default_config Map.empty)
      (ustr ''streamer'') [(ustr ''u1'', ustr ''Hi'', 0), (ustr ''u1'', ustr ''hi'', 5)]) = 1 \<and>
   duplicates_filtered (feed_comments ascii_lower nfc_id (init_scraper default_config Map.empty)
      (ustr ''streamer'') [(ustr ''u1'', ustr ''Hi'', 0), (ustr ''u1'', ustr ''hi'', 5)]) = 1 \<and>
   (31 :: real) - 5 < 30 \<and>
   comments_captured (feed_comments ascii_lower nfc_id (init_scraper default_config Map.empty)
      (ustr ''streamer'')
      [(ustr ''u1'', ustr ''Hi'', 0), (ustr ''u1'', ustr ''hi'', 5), (ustr ''u1'', ustr ''hi'', 31)]) = 2 \<and>
   session_files (feed_comments ascii_lower nfc_id (init_scraper default_config Map.empty)
      (ustr ''streamer'')
      [(ustr ''u1'', ustr ''Hi'', 0), (ustr ''u1'', ustr ''hi'', 5), (ustr ''u1'', ustr ''hi'', 31)])
      (ustr ''streamer'')
     = Some [session_header (ustr ''streamer''), ustr ''Hi'', ustr ''hi'']"
  by (simp add: eval_defs md5_hi md5_Hi_cap md5_bar)

text \<open>
  The example of the specification: \<open>u1\<close> sends \<open>hi\<close> five times within two seconds;
  one comment is captured and four are suppressed.
\<close>

theorem exact_repeats_after_recorded_first_witness:
  "is_duplicate_comment ascii_lower nfc_id (recent_comments (init_scraper default_config Map.empty))
       (ustr ''streamer'') (ustr ''u1'') (ustr ''hi'') 0
     = ([ustr ''streamer'' \<mapsto> [(''7613dfce7cc6a89ca14cb2396c1d9365'', 0)]], Inr False) \<and>
   feed_comments ascii_lower nfc_id (init_scraper default_config Map.empty) (ustr ''streamer'')
       [(ustr ''u1'', ustr ''hi'', 0), (ustr ''u1'', ustr ''hi'', 1 / 2), (ustr ''u1'', ustr ''hi'', 1),
        (ustr ''u1'', ustr ''hi '', 3 / 2), (ustr ''u1'', ustr ''hi'', 2)]
     = (save_event ascii_lower nfc_id (init_scraper default_config Map.empty) (ustr ''streamer'')
          Comment (ustr ''u1'') (ustr ''hi'') 0)
         \<lparr>duplicates_filtered :=
            duplicates_filtered (save_event ascii_lower nfc_id (init_scraper default_config Map.empty)
               (ustr ''streamer'') Comment (ustr ''u1'') (ustr ''hi'') 0) + 4\<rparr> \<and>
   comments_captured (feed_comments ascii_lower nfc_id (init_scraper default_config Map.empty)
       (ustr ''streamer'')
       [(ustr ''u1'', ustr ''hi'', 0), (ustr ''u1'', ustr ''hi'', 1 / 2), (ustr ''u1'', ustr ''hi'', 1),
        (ustr ''u1'', ustr ''hi '', 3 / 2), (ustr ''u1'', ustr ''hi'', 2)]) = 1"
proof -
  let ?st = "init_scraper default_config Map.empty"
  have h1: "is_duplicate_comment ascii_lower nfc_id (recent_comments ?st)
       (ustr ''streamer'') (ustr ''u1'') (ustr ''hi'') 0
     = ([ustr ''streamer'' \<mapsto> [(''7613dfce7cc6a89ca14cb2396c1d9365'', 0)]], Inr False)"
    by (simp add: eval_defs md5_hi md5_bar)
  have h2: "distinct (map fst (ledger_of (recent_comments ?st) (ustr ''streamer'')))"
    by (simp add: eval_defs)
  have h3: "\<forall>(h, t) \<in> set (ledger_of (recent_comments ?st) (ustr ''streamer'')). t < 0"
    by (simp add: eval_defs)
  have h4: "\<forall>(c, text, t) \<in> set [(ustr ''u1'', ustr ''hi'', 1 / 2), (ustr ''u1'', ustr ''hi'', 1),
        (ustr ''u1'', ustr ''hi '', 3 / 2), (ustr ''u1'', ustr ''hi'', 2)].
        c = ustr ''u1'' \<and> strip text = strip (ustr ''hi'') \<and> t - (0 :: real) < 30"
    by (simp add: eval_defs)
  have e: "\<not> is_emoji_only_message (ustr ''hi'')" by (simp add: eval_defs)
  have c0: "comments_captured ?st = 0" by (simp add: init_scraper_def)
  note th = exact_repeats_after_recorded_first [OF h1 h2 h3 h4]
  show ?thesis
  proof (intro conjI)
    show "is_duplicate_comment ascii_lower nfc_id (recent_comments ?st)
       (ustr ''streamer'') (ustr ''u1'') (ustr ''hi'') 0
     = ([ustr ''streamer'' \<mapsto> [(''7613dfce7cc6a89ca14cb2396c1d9365'', 0)]], Inr False)"
      by (rule h1)
  next
    show "feed_comments ascii_lower nfc_id ?st (ustr ''streamer'')
       [(ustr ''u1'', ustr ''hi'', 0), (ustr ''u1'', ustr ''hi'', 1 / 2), (ustr ''u1'', ustr ''hi'', 1),
        (ustr ''u1'', ustr ''hi '', 3 / 2), (ustr ''u1'', ustr ''hi'', 2)]
     = (save_event ascii_lower nfc_id ?st (ustr ''streamer'') Comment (ustr ''u1'') (ustr ''hi'') 0)
         \<lparr>duplicates_filtered :=
            duplicates_filtered (save_event ascii_lower nfc_id ?st
               (ustr ''streamer'') Comment (ustr ''u1'') (ustr ''hi'') 0) + 4\<rparr>"
      using th [THEN conjunct1] by (simp del: feed_comments.simps)
  next
    show "comments_captured (feed_comments ascii_lower nfc_id ?st (ustr ''streamer'')
       [(ustr ''u1'', ustr ''hi'', 0), (ustr ''u1'', ustr ''hi'', 1 / 2), (ustr ''u1'', ustr ''hi'', 1),
        (ustr ''u1'', ustr ''hi '', 3 / 2), (ustr ''u1'', ustr ''hi'', 2)]) = 1"
      using th [THEN conjunct2] e c0 by (simp del: feed_comments.simps)
  qed
qed




text \<open>
  C3.  The claim: once an author has three events in the ledger within the last five
  seconds, the author's next event is suppressed whatever its text.  The code counts the
  ledger entries whose key starts with the first eight hex digits of
  \<open>md5(commenter + "|")\<close>; but a key is the digest of the whole string
  \<open>commenter + "|" + text\<close>, which does not start with the digest of its prefix.  Here
  \<open>u1\<close> posts \<open>a\<close>, \<open>b\<close>, \<open>c\<close>, \<open>d\<close> at seconds 0, 1, 2, 3 on a fresh scraper: all four
  comments are written to the session file and counted as captured, none as filtered.
\<close>

theorem rapid_fire_fourth_comment_forwarded:
  "comments_captured (feed_comments ascii_lower nfc_id (init_scraper default_config Map.empty) (ustr ''streamer'')
     [(ustr ''u1'', ustr ''a'', 0), (ustr ''u1'', ustr ''b'', 1), (ustr ''u1'', ustr ''c'', 2),
      (ustr ''u1'', ustr ''d'', 3)]) = 4 \<and>
   duplicates_filtered (feed_comments ascii_lower nfc_id (init_scraper default_config Map.empty) (ustr ''streamer'')
     [(ustr ''u1'', ustr ''a'', 0), (ustr ''u1'', ustr ''b'', 1), (ustr ''u1'', ustr ''c'', 2),
      (ustr ''u1'', ustr ''d'', 3)]) = 0 \<and>
   session_files (feed_comments ascii_lower nfc_id (init_scraper default_config Map.empty) (ustr ''streamer'')
     [(ustr ''u1'', ustr ''a'', 0), (ustr ''u1'', ustr ''b'', 1), (ustr ''u1'', ustr ''c'', 2),
      (ustr ''u1'', ustr ''d'', 3)]) (ustr ''streamer'')
     = Some [session_header (ustr ''streamer''), ustr ''a'', ustr ''b'', ustr ''c'', ustr ''d'']"
  by (simp add: eval_defs md5_a md5_b md5_c md5_d md5_bar)

text \<open>
  C4, as amended.  The handler of a rate-limit error assigns the deadlines: the global
  deadline becomes \<open>now + global_rate_limit_duration\<close> and the streamer's own deadline
  \<open>now + per_streamer_rate_limit\<close>; every other streamer's deadline is unchanged.  The
  assigned value is the maximum of the old deadline and the new one whenever the old
  deadline is not later than the new one, as it is when the clock has not gone back
  since the old one was set with the same durations.  With positive durations both
  limit checks hold at \<open>now\<close>.
\<close>

theorem record_rate_limit_sets_deadlines:
  "global_rate_limit_until (record_rate_limit cfg st username now)
     = now + global_rate_limit_duration cfg \<and>
   streamer_rate_limits (record_rate_limit cfg st username now) username
     = Some (now + per_streamer_rate_limit cfg) \<and>
   (\<forall>other. other \<noteq> username \<longrightarrow>
      streamer_rate_limits (record_rate_limit cfg st username now) other
        = streamer_rate_limits st other) \<and>
   (global_rate_limit_until st \<le> now + global_rate_limit_duration cfg \<longrightarrow>
      global_rate_limit_until (record_rate_limit cfg st username now)
        = max (global_rate_limit_until st) (now + global_rate_limit_duration cfg)) \<and>
   (\<forall>until. streamer_rate_limits st username = Some until \<longrightarrow>
      until \<le> now + per_streamer_rate_limit cfg \<longrightarrow>
      streamer_rate_limits (record_rate_limit cfg st username now) username
        = Some (max until (now + per_streamer_rate_limit cfg))) \<and>
   (0 < global_rate_limit_duration cfg \<longrightarrow>
      is_globally_limited (record_rate_limit cfg st username now) now) \<and>
   (0 < per_streamer_rate_limit cfg \<longrightarrow>
      is_streamer_limited (record_rate_limit cfg st username now) username now)"
  by (simp add: record_rate_limit_def is_globally_limited_def is_streamer_limited_def max_def)


text \<open>
  The example of the specification: a rate-limit signal for \<open>a\<close> at second 100 on a fresh
  scraper limits \<open>a\<close> and the whole process at once and leaves \<open>b\<close> alone.
\<close>

theorem record_rate_limit_sets_deadlines_witness:
  "global_rate_limit_until (record_rate_limit default_config
       (init_scraper default_config Map.empty) (ustr ''a'') 100) = 1900 \<and>
   streamer_rate_limits (record_rate_limit default_config
       (init_scraper default_config Map.empty) (ustr ''a'') 100) (ustr ''a'') = Some 3700 \<and>
   streamer_rate_limits (record_rate_limit default_config
       (init_scraper default_config Map.empty) (ustr ''a'') 100) (ustr ''b'') = None \<and>
   global_rate_limit_until (record_rate_limit default_config
       (init_scraper default_config Map.empty) (ustr ''a'') 100)
     = max (global_rate_limit_until (init_scraper default_config Map.empty)) 1900 \<and>
   is_globally_limited (record_rate_limit default_config
       (init_scraper default_config Map.empty) (ustr ''a'') 100) 100 \<and>
   is_streamer_limited (record_rate_limit default_config
       (init_scraper default_config Map.empty) (ustr ''a'') 100) (ustr ''a'') 100 \<and>
   \<not> is_streamer_limited (record_rate_limit default_config
       (init_scraper default_config Map.empty) (ustr ''a'') 100) (ustr ''b'') 100"
proof -
  let ?st = "init_scraper default_config Map.empty"
  note th = record_rate_limit_sets_deadlines [of default_config ?st "ustr ''a''" 100]
  have ne: "ustr ''b'' \<noteq> ustr ''a''" by (simp add: ustr_def)
  have g: "global_rate_limit_duration default_config = 1800"
    and p: "per_streamer_rate_limit default_config = 3600"
    by (simp_all add: default_config_def)
  have g0: "global_rate_limit_until ?st = 0" and s0: "streamer_rate_limits ?st = Map.empty"
    by (simp_all add: init_scraper_def)
  have other: "streamer_rate_limits (record_rate_limit default_config ?st (ustr ''a'') 100) (ustr ''b'')
                 = None"
    using th ne s0 by simp
  show ?thesis
    using th ne other by (simp add: g p g0 is_streamer_limited_def)
qed


text \<open>
  C4 as stated fails where an existing deadline is later than the new one: with the
  global deadline at 5000 and the deadline of \<open>a\<close> at 9000, a signal at second 100 puts
  them at 1900 and 3700, not at the maxima 5000 and 9000, and so shortens a window that
  is active at second 100.
\<close>

theorem record_rate_limit_shrinks_window:
  "is_globally_limited ((init_scraper default_config Map.empty)
       \<lparr>global_rate_limit_until := 5000, streamer_rate_limits := [ustr ''a'' \<mapsto> 9000]\<rparr>) 100 \<and>
   max (5000 :: real) (100 + global_rate_limit_duration default_config) = 5000 \<and>
   global_rate_limit_until (record_rate_limit default_config
       ((init_scraper default_config Map.empty)
          \<lparr>global_rate_limit_until := 5000, streamer_rate_limits := [ustr ''a'' \<mapsto> 9000]\<rparr>)
       (ustr ''a'') 100) = 1900 \<and>
   max (9000 :: real) (100 + per_streamer_rate_limit default_config) = 9000 \<and>
   streamer_rate_limits (record_rate_limit default_config
       ((init_scraper default_config Map.empty)
          \<lparr>global_rate_limit_until := 5000, streamer_rate_limits := [ustr ''a'' \<mapsto> 9000]\<rparr>)
       (ustr ''a'') 100) (ustr ''a'') = Some 3700"
  by (simp add: record_rate_limit_def is_globally_limited_def default_config_def init_scraper_def)

text \<open>
  C5.  A connection attempt that holds a permit and finds the global or the streamer's
  rate limit active returns \<open>(False, True)\<close>: apart from the attempt counter the scraper
  is unchanged, and the permit taken on entry has been given back, so the permit pool
  is what it was before the attempt.  The pass of the monitoring loop that made the
  attempt ends with both failure counters increased by one, so the next pass starts
  with a backoff wait.
\<close>

theorem limited_attempt_keeps_permits:
  assumes avail: "available (conn lenv)"
    and limited: "is_globally_limited st (t_check (conn lenv)) \<or>
                  is_streamer_limited st username (t_check (conn lenv))"
    and permit: "0 < connection_semaphore st"
    and nocool: "\<not> (3 \<le> consecutive_rate_limits vars \<and>
                     0 < rate_limit_cooldown cfg - (current_time lenv - last_success_time vars))"
    and delay: "consecutive_failures vars = 0 \<and> sleeps = [] \<or>
                0 < consecutive_failures vars \<and>
                actual_delay cfg (consecutive_failures vars) (jitter lenv) = Inr d \<and> sleeps = [d]"
  shows "create_streamer_client lower cfg (conn lenv) st username
           = Some (st\<lparr>connection_attempts := connection_attempts st + 1\<rparr>, False, True) \<and>
         connection_semaphore (st\<lparr>connection_attempts := connection_attempts st + 1\<rparr>)
           = connection_semaphore st \<and>
         monitor_iteration lower cfg lenv st vars username
           = Some (st\<lparr>connection_attempts := connection_attempts st + 1\<rparr>,
                   vars\<lparr>consecutive_failures := consecutive_failures vars + 1,
                        consecutive_rate_limits := consecutive_rate_limits vars + 1\<rparr>,
                   sleeps)"
proof -
  let ?st1 = "st\<lparr>connection_semaphore := connection_semaphore st - 1,
                 connection_attempts := connection_attempts st + 1\<rparr>"
  have lim1: "is_globally_limited ?st1 (t_check (conn lenv)) \<or>
              is_streamer_limited ?st1 username (t_check (conn lenv))"
    using limited by (simp add: is_globally_limited_def is_streamer_limited_def)
  have body: "connect_body lower cfg (conn lenv) ?st1 username = (?st1, False, True)"
    by (rule connect_body_limited [OF lim1])
  have rel: "release ?st1 = st\<lparr>connection_attempts := connection_attempts st + 1\<rparr>"
    using permit by (simp add: release_def)
  have c: "create_streamer_client lower cfg (conn lenv) st username
           = Some (st\<lparr>connection_attempts := connection_attempts st + 1\<rparr>, False, True)"
    using avail permit body rel by (simp add: create_streamer_client_def acquire_def)
  have m: "monitor_iteration lower cfg lenv st vars username
           = Some (st\<lparr>connection_attempts := connection_attempts st + 1\<rparr>,
                   vars\<lparr>consecutive_failures := consecutive_failures vars + 1,
                        consecutive_rate_limits := consecutive_rate_limits vars + 1\<rparr>,
                   sleeps)"
    using delay nocool c by (auto simp: monitor_iteration_def Let_def)
  show ?thesis using c m by simp
qed

text \<open>The theorem at a first pass made while the global limit lasts until second 2000.\<close>

theorem limited_attempt_keeps_permits_witness:
  "available (conn limited_env) \<and>
   is_globally_limited ((init_scraper default_config Map.empty)\<lparr>global_rate_limit_until := 2000\<rparr>)
     (t_check (conn limited_env)) \<and>
   0 < connection_semaphore ((init_scraper default_config Map.empty)\<lparr>global_rate_limit_until := 2000\<rparr>) \<and>
   create_streamer_client ascii_lower default_config (conn limited_env)
       ((init_scraper default_config Map.empty)\<lparr>global_rate_limit_until := 2000\<rparr>) (ustr ''streamer'')
     = Some ((init_scraper default_config Map.empty)
               \<lparr>global_rate_limit_until := 2000, connection_attempts := 1\<rparr>, False, True) \<and>
   connection_semaphore ((init_scraper default_config Map.empty)
               \<lparr>global_rate_limit_until := 2000, connection_attempts := 1\<rparr>) = 2 \<and>
   monitor_iteration ascii_lower default_config limited_env
       ((init_scraper default_config Map.empty)\<lparr>global_rate_limit_until := 2000\<rparr>)
       \<lparr>consecutive_failures = 0, consecutive_rate_limits = 0, last_success_time = 0\<rparr>
       (ustr ''streamer'')
     = Some ((init_scraper default_config Map.empty)
               \<lparr>global_rate_limit_until := 2000, connection_attempts := 1\<rparr>,
             \<lparr>consecutive_failures = 1, consecutive_rate_limits = 1, last_success_time = 0\<rparr>, [])"
proof -
  let ?st = "(init_scraper default_config Map.empty)\<lparr>global_rate_limit_until := 2000\<rparr>"
  let ?vars = "\<lparr>consecutive_failures = 0, consecutive_rate_limits = 0, last_success_time = 0\<rparr>"
  have h1: "available (conn limited_env)" by (simp add: limited_env_def)
  have g: "is_globally_limited ?st (t_check (conn limited_env))"
    by (simp add: limited_env_def is_globally_limited_def)
  then have h2: "is_globally_limited ?st (t_check (conn limited_env)) \<or>
            is_streamer_limited ?st (ustr ''streamer'') (t_check (conn limited_env))" by simp
  have h3: "0 < connection_semaphore ?st" by (simp add: init_scraper_def default_config_def)
  have h4: "\<not> (3 \<le> consecutive_rate_limits ?vars \<and>
               0 < rate_limit_cooldown default_config
                     - (current_time limited_env - last_success_time ?vars))" by simp
  have h5: "consecutive_failures ?vars = 0 \<and> ([] :: real list) = [] \<or>
            0 < consecutive_failures ?vars \<and>
            actual_delay default_config (consecutive_failures ?vars) (jitter limited_env) = Inr 0 \<and>
            ([] :: real list) = [0]" by simp
  note th = limited_attempt_keeps_permits
      [where lower = ascii_lower and cfg = default_config, OF h1 h2 h3 h4 h5]
  show ?thesis
    using h1 g h3 th by (simp add: init_scraper_def default_config_def)
qed

text \<open>
  C6.  A call of \<open>_is_duplicate_comment\<close> that records the event (it returns \<open>False\<close>)
  leaves a ledger for the streamer in which no entry is more than 3600 seconds older
  than the call's timestamp and which has at most 1000 entries.  The ledger is what
  \<open>keep_recent\<close> makes of the recorded and purged entries \<open>d1\<close>: when \<open>d1\<close> has more than
  1000 entries, exactly 500 are retained, and every retained entry has a timestamp at
  least as late as every dropped one.
\<close>

theorem ledger_bounded_after_record:
  assumes "md5_hex (commenter @ ustr ''|'' @ strip comment) = Some ke"
    and "md5_hex (commenter @ ustr ''|'' @ nfc (strip (lower comment))) = Some ks"
    and "is_duplicate_comment lower nfc rc username commenter comment now = (rc', Inr False)"
  shows "\<exists>d'. rc' username = Some d' \<and> (\<forall>(h, t) \<in> set d'. now - t \<le> 3600) \<and> length d' \<le> 1000 \<and>
           (let d1 = purge_old (dict_set (dict_set (ledger_of rc username) ke now) ks now) now
            in d' = keep_recent d1 \<and>
               (1000 < length d1 \<longrightarrow>
                  length d' = 500 \<and>
                  (\<exists>dropped. mset d1 = mset d' + mset dropped \<and>
                     (\<forall>x \<in> set d'. \<forall>y \<in> set dropped. snd y \<le> snd x))))"
proof -
  let ?d1 = "purge_old (dict_set (dict_set (ledger_of rc username) ke now) ks now) now"
  have rc': "rc' = rc(username \<mapsto> keep_recent ?d1)"
    by (rule is_duplicate_recorded [OF assms(3) assms(1) assms(2)])
  have fresh: "\<forall>(h, t) \<in> set (keep_recent ?d1). now - t \<le> 3600"
    using keep_recent_subset [of ?d1] purge_old_fresh [of _ _ "dict_set (dict_set (ledger_of rc username) ke now) ks now" now]
    by fastforce
  have cap: "1000 < length ?d1 \<longrightarrow>
       length (keep_recent ?d1) = 500 \<and>
       (\<exists>dropped. mset ?d1 = mset (keep_recent ?d1) + mset dropped \<and>
          (\<forall>x \<in> set (keep_recent ?d1). \<forall>y \<in> set dropped. snd y \<le> snd x))"
    using keep_recent_most_recent [of ?d1] by blast
  show ?thesis
    using rc' fresh cap keep_recent_length [of ?d1] by (simp add: Let_def)
qed

text \<open>
  The theorem at a ledger that holds one entry stamped 0 and 1000 entries stamped 5000,
  when \<open>u1\<close> posts \<open>hi\<close> at second 5100.  Recording makes 1002 entries; the entry stamped
  0 is over an hour old and is purged, which leaves 1001; the cap then keeps 500, the new
  entry first.
\<close>

theorem ledger_bounded_after_record_witness:
  "md5_hex ((ustr ''u1'') @ ustr ''|'' @ strip (ustr ''hi'')) = Some ''7613dfce7cc6a89ca14cb2396c1d9365'' \<and>
   md5_hex ((ustr ''u1'') @ ustr ''|'' @ nfc_id (strip (ascii_lower (ustr ''hi'')))) = Some ''7613dfce7cc6a89ca14cb2396c1d9365'' \<and>
   distinct (map fst ((''075d9f0d017aacac917e7fdbeb66f129'', 0) # full_ledger 5000)) \<and>
   is_duplicate_comment ascii_lower nfc_id [ustr ''streamer'' \<mapsto> ((''075d9f0d017aacac917e7fdbeb66f129'', 0) # full_ledger 5000)] (ustr ''streamer'') (ustr ''u1'') (ustr ''hi'') 5100 = ([ustr ''streamer'' \<mapsto> ((''7613dfce7cc6a89ca14cb2396c1d9365'', 5100) # take 499 (full_ledger 5000))], Inr False) \<and>
   (\<exists>d'. [ustr ''streamer'' \<mapsto> ((''7613dfce7cc6a89ca14cb2396c1d9365'', 5100) # take 499 (full_ledger 5000))] (ustr ''streamer'') = Some d' \<and>
      (\<forall>(h, t) \<in> set d'. 5100 - t \<le> 3600) \<and> length d' \<le> 1000 \<and>
      (let d1 = purge_old (dict_set (dict_set (ledger_of [ustr ''streamer'' \<mapsto> ((''075d9f0d017aacac917e7fdbeb66f129'', 0) # full_ledger 5000)] (ustr ''streamer'')) ''7613dfce7cc6a89ca14cb2396c1d9365'' 5100) ''7613dfce7cc6a89ca14cb2396c1d9365'' 5100) 5100
       in d' = keep_recent d1 \<and>
          (1000 < length d1 \<longrightarrow>
             length d' = 500 \<and>
             (\<exists>dropped. mset d1 = mset d' + mset dropped \<and>
                (\<forall>x \<in> set d'. \<forall>y \<in> set dropped. snd y \<le> snd x))))) \<and>
   length (dict_set (dict_set (ledger_of [ustr ''streamer'' \<mapsto> ((''075d9f0d017aacac917e7fdbeb66f129'', 0) # full_ledger 5000)] (ustr ''streamer'')) ''7613dfce7cc6a89ca14cb2396c1d9365'' 5100) ''7613dfce7cc6a89ca14cb2396c1d9365'' 5100) = 1002 \<and>
   length (purge_old (dict_set (dict_set (ledger_of [ustr ''streamer'' \<mapsto> ((''075d9f0d017aacac917e7fdbeb66f129'', 0) # full_ledger 5000)] (ustr ''streamer'')) ''7613dfce7cc6a89ca14cb2396c1d9365'' 5100) ''7613dfce7cc6a89ca14cb2396c1d9365'' 5100) 5100) = 1001 \<and>
   map_of ((''075d9f0d017aacac917e7fdbeb66f129'', 0) # full_ledger 5000) ''075d9f0d017aacac917e7fdbeb66f129'' = Some 0 \<and>
   map_of ((''7613dfce7cc6a89ca14cb2396c1d9365'', 5100) # take 499 (full_ledger 5000)) ''075d9f0d017aacac917e7fdbeb66f129'' = None \<and>
   length ((''7613dfce7cc6a89ca14cb2396c1d9365'', 5100) # take 499 (full_ledger 5000)) = 500"
proof -
  have h1: "md5_hex ((ustr ''u1'') @ ustr ''|'' @ strip (ustr ''hi'')) = Some ''7613dfce7cc6a89ca14cb2396c1d9365''"
    by (simp add: eval_defs md5_hi)
  have h2: "md5_hex ((ustr ''u1'') @ ustr ''|'' @ nfc_id (strip (ascii_lower (ustr ''hi'')))) = Some ''7613dfce7cc6a89ca14cb2396c1d9365''"
    by (simp add: eval_defs md5_hi)
  have ph: "md5_hex ((ustr ''u1'') @ ustr ''|'') = Some ''833597e5b182cc5af9fb3e7a6c0db77e''"
    by (simp add: eval_defs md5_bar)
  have h3: "is_duplicate_comment ascii_lower nfc_id [ustr ''streamer'' \<mapsto> ((''075d9f0d017aacac917e7fdbeb66f129'', 0) # full_ledger 5000)] (ustr ''streamer'') (ustr ''u1'') (ustr ''hi'') 5100 = ([ustr ''streamer'' \<mapsto> ((''7613dfce7cc6a89ca14cb2396c1d9365'', 5100) # take 499 (full_ledger 5000))], Inr False)"
    by (rule capped_full_ledger [where lower = ascii_lower and nfc = nfc_id, OF h1 h2 ph]) simp_all
  have led: "ledger_of [ustr ''streamer'' \<mapsto> ((''075d9f0d017aacac917e7fdbeb66f129'', 0) # full_ledger 5000)] (ustr ''streamer'') = ((''075d9f0d017aacac917e7fdbeb66f129'', 0) # full_ledger 5000)"
    by (simp add: ledger_of_def)
  have rec: "dict_set (dict_set ((''075d9f0d017aacac917e7fdbeb66f129'', 0) # full_ledger 5000) ''7613dfce7cc6a89ca14cb2396c1d9365'' 5100) ''7613dfce7cc6a89ca14cb2396c1d9365'' 5100
               = ((''075d9f0d017aacac917e7fdbeb66f129'', 0) # full_ledger 5000) @ [(''7613dfce7cc6a89ca14cb2396c1d9365'', 5100)]"
    by (rule recorded_on_full_ledger) simp_all
  have purge: "purge_old (((''075d9f0d017aacac917e7fdbeb66f129'', 0) # full_ledger 5000) @ [(''7613dfce7cc6a89ca14cb2396c1d9365'', 5100)]) 5100
               = full_ledger 5000 @ [(''7613dfce7cc6a89ca14cb2396c1d9365'', 5100)]"
    by (rule purged_full_ledger) simp_all
  have l2: "length (dict_set (dict_set (ledger_of [ustr ''streamer'' \<mapsto> ((''075d9f0d017aacac917e7fdbeb66f129'', 0) # full_ledger 5000)] (ustr ''streamer'')) ''7613dfce7cc6a89ca14cb2396c1d9365'' 5100) ''7613dfce7cc6a89ca14cb2396c1d9365'' 5100) = 1002"
    unfolding led rec by (simp add: full_ledger_length)
  have l1: "length (purge_old (dict_set (dict_set (ledger_of [ustr ''streamer'' \<mapsto> ((''075d9f0d017aacac917e7fdbeb66f129'', 0) # full_ledger 5000)] (ustr ''streamer'')) ''7613dfce7cc6a89ca14cb2396c1d9365'' 5100) ''7613dfce7cc6a89ca14cb2396c1d9365'' 5100) 5100) = 1001"
    unfolding led rec purge by (simp add: full_ledger_length)
  have other: "\<forall>(h, t) \<in> set (full_ledger 5000). h \<noteq> ''075d9f0d017aacac917e7fdbeb66f129''"
    using full_ledger_second by fastforce
  then have "''075d9f0d017aacac917e7fdbeb66f129'' \<notin> fst ` set (full_ledger 5000)" by force
  then have dist: "distinct (map fst ((''075d9f0d017aacac917e7fdbeb66f129'', 0) # full_ledger 5000))"
    using full_ledger_distinct [of 5000] by simp
  have m0: "map_of ((''075d9f0d017aacac917e7fdbeb66f129'', 0) # full_ledger 5000) ''075d9f0d017aacac917e7fdbeb66f129'' = Some 0" by simp
  have "\<forall>(h, t) \<in> set (take 499 (full_ledger 5000)). h \<noteq> ''075d9f0d017aacac917e7fdbeb66f129''"
    using other by (auto dest: in_set_takeD)
  then have "map_of (take 499 (full_ledger 5000)) ''075d9f0d017aacac917e7fdbeb66f129'' = None" by (rule map_of_none_if)
  then have m1: "map_of ((''7613dfce7cc6a89ca14cb2396c1d9365'', 5100) # take 499 (full_ledger 5000)) ''075d9f0d017aacac917e7fdbeb66f129'' = None" by simp
  have l5: "length ((''7613dfce7cc6a89ca14cb2396c1d9365'', 5100) # take 499 (full_ledger 5000)) = 500" by (simp add: full_ledger_length)
  note th = ledger_bounded_after_record [OF h1 h2 h3]
  show ?thesis
    by (intro conjI) (rule h1, rule h2, rule dist, rule h3, rule th, rule l2, rule l1, rule m0,
          rule m1, rule l5)
qed

text \<open>
  C7.  The claim: the delay is \<open>min(base * multiplier^failures, cap)\<close> times the jitter,
  and lies within \<open>[cap * 0.8, cap * 1.2]\<close> once the exponential term exceeds the cap.
  With the default configuration the delay at 1023 consecutive failures is still 1800
  times the jitter.  At 1024 failures the term \<open>2.0 ** 1024\<close> is evaluated before
  \<open>min\<close> is applied and raises \<open>OverflowError\<close>, although the capped value would be 1800:
  no delay is computed, and the handler at the end of the loop body counts one more
  failure and sleeps 60 seconds.
\<close>

theorem backoff_overflows_at_1024:
  "actual_delay default_config 1023 j = Inr (1800 * j) \<and>
   min (base_delay default_config * backoff_multiplier default_config ^ 1024)
       (max_delay default_config) = 1800 \<and>
   actual_delay default_config 1024 j = Inl OverflowError \<and>
   monitor_iteration lower default_config env st
       \<lparr>consecutive_failures = 1024, consecutive_rate_limits = 0, last_success_time = 0\<rparr> username
     = Some (st, \<lparr>consecutive_failures = 1025, consecutive_rate_limits = 0, last_success_time = 0\<rparr>,
             [60])"
proof -
  have p: "(2 :: real) ^ 1024 = 2 ^ 970 * 2 ^ 54" "(2 :: real) ^ 1023 = 2 ^ 970 * 2 ^ 53"
    by (simp_all add: power_add [symmetric])
  have pos: "(0 :: real) < 2 ^ 970" by simp
  have over: "float_overflow \<le> \<bar>(2 :: real) ^ 1024\<bar>"
    by (simp add: float_overflow_def)
  have "(2 :: real) ^ 1023 < 2 ^ 970 * 2 ^ 54 - 2 ^ 970"
  proof -
    have "(2 :: real) ^ 970 * 2 ^ 54 - 2 ^ 970 = 2 ^ 970 * (2 ^ 54 - 1)" by (simp add: algebra_simps)
    moreover have "(2 :: real) ^ 970 * 2 ^ 53 < 2 ^ 970 * (2 ^ 54 - 1)"
      using pos by (intro mult_strict_left_mono) simp_all
    ultimately show ?thesis using p(2) by simp
  qed
  then have under: "\<not> float_overflow \<le> \<bar>(2 :: real) ^ 1023\<bar>"
    using p(1) by (simp add: float_overflow_def)
  have big: "(1800 :: real) \<le> 15 * 2 ^ 1023" "(1800 :: real) \<le> 15 * 2 ^ 1024"
  proof -
    have "(2 :: real) ^ 7 \<le> 2 ^ 1023" "(2 :: real) ^ 7 \<le> 2 ^ 1024"
      by (intro power_increasing; simp)+
    then show "(1800 :: real) \<le> 15 * 2 ^ 1023" "(1800 :: real) \<le> 15 * 2 ^ 1024" by simp_all
  qed
  have a: "actual_delay default_config 1023 j = Inr (1800 * j)"
    using under big(1)
    by (simp add: actual_delay_def backoff_delay_def float_pow_def default_config_def min_def)
  have b: "min (base_delay default_config * backoff_multiplier default_config ^ 1024)
       (max_delay default_config) = 1800"
    using big(2) by (simp add: default_config_def min_def)
  have c: "actual_delay default_config 1024 j' = Inl OverflowError" for j'
    using over by (simp add: actual_delay_def backoff_delay_def float_pow_def default_config_def)
  have d: "monitor_iteration lower default_config env st
       \<lparr>consecutive_failures = 1024, consecutive_rate_limits = 0, last_success_time = 0\<rparr> username
     = Some (st, \<lparr>consecutive_failures = 1025, consecutive_rate_limits = 0, last_success_time = 0\<rparr>,
             [60])"
    using c [of "jitter env"] by (simp add: monitor_iteration_def)
  show ?thesis using a b c d by simp
qed

text \<open>
  C8, as amended.  Take a comment whose text has a character that is neither whitespace
  nor in the emoji ranges, with exact key \<open>ke\<close> and normalised key \<open>ks\<close>, on a ledger that
  holds each key once and only entries older than the event.  \<open>save_event\<close> suppresses
  the event exactly when one of the three strategies matches (the exact key seen within
  30 seconds, the normalised key seen within 10 seconds, or three or more recent entries
  counted by strategy 3); a suppressed event adds one to \<open>duplicates_filtered\<close> and leaves
  the ledger and everything else unchanged.  When no strategy matches, the event is
  written, and the ledger afterwards maps both keys to the event's timestamp.
\<close>

theorem dedup_suppression_and_frame:
  assumes subst: "\<exists>c \<in> set content. \<not> isspace c \<and> \<not> emoji_char c"
    and ke: "md5_hex (commenter @ ustr ''|'' @ strip content) = Some ke"
    and ks: "md5_hex (commenter @ ustr ''|'' @ nfc (strip (lower content))) = Some ks"
    and rf: "recent_from_user (ledger_of (recent_comments st) username) commenter now = Inr ts"
    and dist: "distinct (map fst (ledger_of (recent_comments st) username))"
    and old: "\<forall>(h, t) \<in> set (ledger_of (recent_comments st) username). t < now"
  shows "if seen_within (ledger_of (recent_comments st) username) ke now 30 \<or>
            seen_within (ledger_of (recent_comments st) username) ks now 10 \<or> 3 \<le> length ts
         then save_event lower nfc st username Comment commenter content now
                = st\<lparr>duplicates_filtered := duplicates_filtered st + 1\<rparr>
         else (\<exists>rc'. save_event lower nfc st username Comment commenter content now
                        = write_event (st\<lparr>recent_comments := rc'\<rparr>) username Comment content \<and>
                      map_of (ledger_of rc' username) ke = Some now \<and>
                      map_of (ledger_of rc' username) ks = Some now)"
proof (cases "seen_within (ledger_of (recent_comments st) username) ke now 30 \<or>
            seen_within (ledger_of (recent_comments st) username) ks now 10 \<or> 3 \<le> length ts")
  case True
  then have "is_duplicate_comment lower nfc (recent_comments st) username commenter content now
               = (recent_comments st, Inr True)"
    using is_duplicate_comment_cases [where lower = lower and nfc = nfc, OF ke ks rf] by simp
  then show ?thesis using True by (simp add: save_event_duplicate)
next
  case False
  let ?rc = "(recent_comments st)(username \<mapsto>
      keep_recent (purge_old (dict_set (dict_set (ledger_of (recent_comments st) username) ke now)
         ks now) now))"
  have first: "is_duplicate_comment lower nfc (recent_comments st) username commenter content now
               = (?rc, Inr False)"
    using False is_duplicate_comment_cases [where lower = lower and nfc = nfc, OF ke ks rf] by simp
  have ne: "\<not> is_emoji_only_message content" using subst by (auto simp: is_emoji_only_iff)
  have "save_event lower nfc st username Comment commenter content now
          = write_event (st\<lparr>recent_comments := ?rc\<rparr>) username Comment content"
    using first ne by (simp add: save_event_def)
  moreover have "map_of (ledger_of ?rc username) ke = Some now"
    by (rule recorded_after_first(1) [OF first ke ks dist old])
  moreover have "map_of (ledger_of ?rc username) ks = Some now"
    by (rule recorded_after_first(2) [OF first ke ks dist old])
  ultimately show ?thesis using False by auto
qed


text \<open>
  The theorem twice at second 100, on a ledger that holds the key of \<open>u1|a\<close> stamped 90.
  The comment \<open>a\<close> of \<open>u1\<close> is suppressed by the exact-repeat rule: one more filtered
  duplicate, the ledger unchanged.  The comment \<open>hi\<close> of \<open>u1\<close> matches no strategy: it is
  written, and the ledger afterwards maps its key to 100.
\<close>

theorem dedup_suppression_and_frame_witness:
  "(\<exists>c \<in> set (ustr ''a''). \<not> isspace c \<and> \<not> emoji_char c) \<and>
   md5_hex ((ustr ''u1'') @ ustr ''|'' @ strip (ustr ''a'')) = Some ''075d9f0d017aacac917e7fdbeb66f129'' \<and>
   md5_hex ((ustr ''u1'') @ ustr ''|'' @ nfc_id (strip (ascii_lower (ustr ''a'')))) = Some ''075d9f0d017aacac917e7fdbeb66f129'' \<and>
   recent_from_user (ledger_of (recent_comments (init_scraper default_config [ustr ''streamer'' \<mapsto> [(''075d9f0d017aacac917e7fdbeb66f129'', 90)]])) (ustr ''streamer'')) (ustr ''u1'') 100 = Inr [] \<and>
   distinct (map fst (ledger_of (recent_comments (init_scraper default_config [ustr ''streamer'' \<mapsto> [(''075d9f0d017aacac917e7fdbeb66f129'', 90)]])) (ustr ''streamer''))) \<and>
   map_of (ledger_of (recent_comments (init_scraper default_config [ustr ''streamer'' \<mapsto> [(''075d9f0d017aacac917e7fdbeb66f129'', 90)]])) (ustr ''streamer'')) ''075d9f0d017aacac917e7fdbeb66f129'' = Some 90 \<and>
   seen_within (ledger_of (recent_comments (init_scraper default_config [ustr ''streamer'' \<mapsto> [(''075d9f0d017aacac917e7fdbeb66f129'', 90)]])) (ustr ''streamer'')) ''075d9f0d017aacac917e7fdbeb66f129'' 100 30 \<and>
   (save_event ascii_lower nfc_id (init_scraper default_config [ustr ''streamer'' \<mapsto> [(''075d9f0d017aacac917e7fdbeb66f129'', 90)]]) (ustr ''streamer'') Comment (ustr ''u1'') (ustr ''a'') 100) = (init_scraper default_config [ustr ''streamer'' \<mapsto> [(''075d9f0d017aacac917e7fdbeb66f129'', 90)]])\<lparr>duplicates_filtered := duplicates_filtered (init_scraper default_config [ustr ''streamer'' \<mapsto> [(''075d9f0d017aacac917e7fdbeb66f129'', 90)]]) + 1\<rparr> \<and>
   recent_comments (save_event ascii_lower nfc_id (init_scraper default_config [ustr ''streamer'' \<mapsto> [(''075d9f0d017aacac917e7fdbeb66f129'', 90)]]) (ustr ''streamer'') Comment (ustr ''u1'') (ustr ''a'') 100) = recent_comments (init_scraper default_config [ustr ''streamer'' \<mapsto> [(''075d9f0d017aacac917e7fdbeb66f129'', 90)]]) \<and>
   (\<exists>c \<in> set (ustr ''hi''). \<not> isspace c \<and> \<not> emoji_char c) \<and>
   md5_hex ((ustr ''u1'') @ ustr ''|'' @ strip (ustr ''hi'')) = Some ''7613dfce7cc6a89ca14cb2396c1d9365'' \<and>
   md5_hex ((ustr ''u1'') @ ustr ''|'' @ nfc_id (strip (ascii_lower (ustr ''hi'')))) = Some ''7613dfce7cc6a89ca14cb2396c1d9365'' \<and>
   \<not> (seen_within (ledger_of (recent_comments (init_scraper default_config [ustr ''streamer'' \<mapsto> [(''075d9f0d017aacac917e7fdbeb66f129'', 90)]])) (ustr ''streamer'')) ''7613dfce7cc6a89ca14cb2396c1d9365'' 100 30 \<or> seen_within (ledger_of (recent_comments (init_scraper default_config [ustr ''streamer'' \<mapsto> [(''075d9f0d017aacac917e7fdbeb66f129'', 90)]])) (ustr ''streamer'')) ''7613dfce7cc6a89ca14cb2396c1d9365'' 100 10 \<or> 3 \<le> length ([] :: real list)) \<and>
   (\<exists>rc'. (save_event ascii_lower nfc_id (init_scraper default_config [ustr ''streamer'' \<mapsto> [(''075d9f0d017aacac917e7fdbeb66f129'', 90)]]) (ustr ''streamer'') Comment (ustr ''u1'') (ustr ''hi'') 100) = write_event ((init_scraper default_config [ustr ''streamer'' \<mapsto> [(''075d9f0d017aacac917e7fdbeb66f129'', 90)]])\<lparr>recent_comments := rc'\<rparr>) (ustr ''streamer'') Comment (ustr ''hi'') \<and>
          map_of (ledger_of rc' (ustr ''streamer'')) ''7613dfce7cc6a89ca14cb2396c1d9365'' = Some 100 \<and> map_of (ledger_of rc' (ustr ''streamer'')) ''7613dfce7cc6a89ca14cb2396c1d9365'' = Some 100)"
proof -
  have a1: "\<exists>c \<in> set (ustr ''a''). \<not> isspace c \<and> \<not> emoji_char c"
    by (simp add: eval_defs)
  have a2: "md5_hex ((ustr ''u1'') @ ustr ''|'' @ strip (ustr ''a'')) = Some ''075d9f0d017aacac917e7fdbeb66f129''"
    by (simp add: eval_defs md5_a)
  have a3: "md5_hex ((ustr ''u1'') @ ustr ''|'' @ nfc_id (strip (ascii_lower (ustr ''a'')))) = Some ''075d9f0d017aacac917e7fdbeb66f129''"
    by (simp add: eval_defs md5_a)
  have b1: "\<exists>c \<in> set (ustr ''hi''). \<not> isspace c \<and> \<not> emoji_char c"
    by (simp add: eval_defs)
  have b2: "md5_hex ((ustr ''u1'') @ ustr ''|'' @ strip (ustr ''hi'')) = Some ''7613dfce7cc6a89ca14cb2396c1d9365''"
    by (simp add: eval_defs md5_hi)
  have b3: "md5_hex ((ustr ''u1'') @ ustr ''|'' @ nfc_id (strip (ascii_lower (ustr ''hi'')))) = Some ''7613dfce7cc6a89ca14cb2396c1d9365''"
    by (simp add: eval_defs md5_hi)
  have h4: "recent_from_user (ledger_of (recent_comments (init_scraper default_config [ustr ''streamer'' \<mapsto> [(''075d9f0d017aacac917e7fdbeb66f129'', 90)]])) (ustr ''streamer'')) (ustr ''u1'') 100 = Inr []"
    by (simp add: eval_defs md5_bar)
  have h5: "distinct (map fst (ledger_of (recent_comments (init_scraper default_config [ustr ''streamer'' \<mapsto> [(''075d9f0d017aacac917e7fdbeb66f129'', 90)]])) (ustr ''streamer'')))"
    by (simp add: eval_defs)
  have h6: "\<forall>(h, t) \<in> set (ledger_of (recent_comments (init_scraper default_config [ustr ''streamer'' \<mapsto> [(''075d9f0d017aacac917e7fdbeb66f129'', 90)]])) (ustr ''streamer'')). t < 100"
    by (simp add: eval_defs)
  have m: "map_of (ledger_of (recent_comments (init_scraper default_config [ustr ''streamer'' \<mapsto> [(''075d9f0d017aacac917e7fdbeb66f129'', 90)]])) (ustr ''streamer'')) ''075d9f0d017aacac917e7fdbeb66f129'' = Some 90"
    by (simp add: eval_defs)
  have sw: "seen_within (ledger_of (recent_comments (init_scraper default_config [ustr ''streamer'' \<mapsto> [(''075d9f0d017aacac917e7fdbeb66f129'', 90)]])) (ustr ''streamer'')) ''075d9f0d017aacac917e7fdbeb66f129'' 100 30"
    by (simp add: eval_defs)
  then have ca: "seen_within (ledger_of (recent_comments (init_scraper default_config [ustr ''streamer'' \<mapsto> [(''075d9f0d017aacac917e7fdbeb66f129'', 90)]])) (ustr ''streamer'')) ''075d9f0d017aacac917e7fdbeb66f129'' 100 30 \<or> seen_within (ledger_of (recent_comments (init_scraper default_config [ustr ''streamer'' \<mapsto> [(''075d9f0d017aacac917e7fdbeb66f129'', 90)]])) (ustr ''streamer'')) ''075d9f0d017aacac917e7fdbeb66f129'' 100 10 \<or> 3 \<le> length ([] :: real list)"
    by (rule disjI1)
  have cb: "\<not> (seen_within (ledger_of (recent_comments (init_scraper default_config [ustr ''streamer'' \<mapsto> [(''075d9f0d017aacac917e7fdbeb66f129'', 90)]])) (ustr ''streamer'')) ''7613dfce7cc6a89ca14cb2396c1d9365'' 100 30 \<or> seen_within (ledger_of (recent_comments (init_scraper default_config [ustr ''streamer'' \<mapsto> [(''075d9f0d017aacac917e7fdbeb66f129'', 90)]])) (ustr ''streamer'')) ''7613dfce7cc6a89ca14cb2396c1d9365'' 100 10 \<or> 3 \<le> length ([] :: real list))"
    by (simp add: eval_defs)
  note tha = dedup_suppression_and_frame [where lower = ascii_lower and nfc = nfc_id,
      OF a1 a2 a3 h4 h5 h6]
  note thb = dedup_suppression_and_frame [where lower = ascii_lower and nfc = nfc_id,
      OF b1 b2 b3 h4 h5 h6]
  have ra: "(save_event ascii_lower nfc_id (init_scraper default_config [ustr ''streamer'' \<mapsto> [(''075d9f0d017aacac917e7fdbeb66f129'', 90)]]) (ustr ''streamer'') Comment (ustr ''u1'') (ustr ''a'') 100) = (init_scraper default_config [ustr ''streamer'' \<mapsto> [(''075d9f0d017aacac917e7fdbeb66f129'', 90)]])\<lparr>duplicates_filtered := duplicates_filtered (init_scraper default_config [ustr ''streamer'' \<mapsto> [(''075d9f0d017aacac917e7fdbeb66f129'', 90)]]) + 1\<rparr>"
    using tha unfolding if_P [OF ca] .
  have rb: "\<exists>rc'. (save_event ascii_lower nfc_id (init_scraper default_config [ustr ''streamer'' \<mapsto> [(''075d9f0d017aacac917e7fdbeb66f129'', 90)]]) (ustr ''streamer'') Comment (ustr ''u1'') (ustr ''hi'') 100) = write_event ((init_scraper default_config [ustr ''streamer'' \<mapsto> [(''075d9f0d017aacac917e7fdbeb66f129'', 90)]])\<lparr>recent_comments := rc'\<rparr>) (ustr ''streamer'') Comment (ustr ''hi'') \<and>
          map_of (ledger_of rc' (ustr ''streamer'')) ''7613dfce7cc6a89ca14cb2396c1d9365'' = Some 100 \<and> map_of (ledger_of rc' (ustr ''streamer'')) ''7613dfce7cc6a89ca14cb2396c1d9365'' = Some 100"
    using thb unfolding if_not_P [OF cb] .
  have same: "recent_comments (save_event ascii_lower nfc_id (init_scraper default_config [ustr ''streamer'' \<mapsto> [(''075d9f0d017aacac917e7fdbeb66f129'', 90)]]) (ustr ''streamer'') Comment (ustr ''u1'') (ustr ''a'') 100) = recent_comments (init_scraper default_config [ustr ''streamer'' \<mapsto> [(''075d9f0d017aacac917e7fdbeb66f129'', 90)]])"
    unfolding ra by simp
  show ?thesis
    by (intro conjI) (rule a1, rule a2, rule a3, rule h4, rule h5, rule m, rule sw, rule ra,
          rule same, rule b1, rule b2, rule b3, rule cb, rule rb)
qed


text \<open>
  C8 as stated fails when the cap of \<open>_cleanup_old_comments\<close> evicts the keys just
  recorded: the ledger holds 1000 entries stamped 200 and \<open>u1\<close> posts \<open>hi\<close> at second 100
  (the clock was set back).  No strategy suppresses the event; the new entry is the
  1001st and the oldest, the stable sort keeps the 500 entries that come first, and the
  ledger afterwards has no entry for the exact key.
\<close>

theorem recorded_key_evicted_by_cap:
  "(\<exists>c \<in> set (ustr ''hi''). \<not> isspace c \<and> \<not> emoji_char c) \<and>
   distinct (map fst (full_ledger 200)) \<and>
   md5_hex ((ustr ''u1'') @ ustr ''|'' @ strip (ustr ''hi'')) = Some ''7613dfce7cc6a89ca14cb2396c1d9365'' \<and>
   snd (is_duplicate_comment ascii_lower nfc_id [ustr ''streamer'' \<mapsto> full_ledger 200] (ustr ''streamer'') (ustr ''u1'') (ustr ''hi'') 100)
     = Inr False \<and>
   map_of (ledger_of (fst (is_duplicate_comment ascii_lower nfc_id
              [ustr ''streamer'' \<mapsto> full_ledger 200] (ustr ''streamer'') (ustr ''u1'') (ustr ''hi'') 100)) (ustr ''streamer'')) ''7613dfce7cc6a89ca14cb2396c1d9365'' = None"
proof -
  have h1: "\<exists>c \<in> set (ustr ''hi''). \<not> isspace c \<and> \<not> emoji_char c"
    by (simp add: eval_defs)
  have ke: "md5_hex ((ustr ''u1'') @ ustr ''|'' @ strip (ustr ''hi'')) = Some ''7613dfce7cc6a89ca14cb2396c1d9365''"
    by (simp add: eval_defs md5_hi)
  have ks: "md5_hex ((ustr ''u1'') @ ustr ''|'' @ nfc_id (strip (ascii_lower (ustr ''hi'')))) = Some ''7613dfce7cc6a89ca14cb2396c1d9365''"
    by (simp add: eval_defs md5_hi)
  have ph: "md5_hex ((ustr ''u1'') @ ustr ''|'') = Some ''833597e5b182cc5af9fb3e7a6c0db77e''"
    by (simp add: eval_defs md5_bar)
  have r: "is_duplicate_comment ascii_lower nfc_id [ustr ''streamer'' \<mapsto> full_ledger 200] (ustr ''streamer'') (ustr ''u1'') (ustr ''hi'') 100
             = ([ustr ''streamer'' \<mapsto> take 500 (full_ledger 200)], Inr False)"
    by (rule evicted_by_cap [where lower = ascii_lower and nfc = nfc_id, OF ke ks ph]) simp_all
  have "map_of (take 500 (full_ledger 200)) ''7613dfce7cc6a89ca14cb2396c1d9365'' = None"
    by (rule take_full_ledger_absent) simp
  then show ?thesis
    using h1 ke full_ledger_distinct [of 200] by (simp add: r ledger_of_def)
qed

text \<open>
  C9.  The claim: once the shutdown flag is set no pending sleep exceeds one polling
  interval, and no loop sleeps the full backoff delay at a stretch.  After seven
  consecutive failures, with the default configuration and jitter 1, the pass of the
  loop begins with one \<open>asyncio.sleep\<close> of 1800 seconds, against the 10 seconds of the poll
  made while connected; the flag is read again only when the pass is over, after the
  connection attempt that follows the sleep has been made as well.
\<close>

theorem backoff_sleep_not_interruptible:
  "actual_delay default_config 7 (jitter offline_env) = Inr 1800 \<and>
   monitor_iteration ascii_lower default_config offline_env (init_scraper default_config Map.empty)
       \<lparr>consecutive_failures = 7, consecutive_rate_limits = 0, last_success_time = 990\<rparr>
       (ustr ''streamer'')
     = Some ((init_scraper default_config Map.empty)
               \<lparr>connection_attempts := 1, failed_connections := 1, last_connection_time := 2805\<rparr>,
             \<lparr>consecutive_failures = 8, consecutive_rate_limits = 0, last_success_time = 990\<rparr>,
             [1800]) \<and>
   (10 :: real) < 1800"
proof -
  have over: "\<not> float_overflow \<le> \<bar>(2 :: real) ^ 7\<bar>"
  proof -
    have "(2 :: real) ^ 8 \<le> 2 ^ 970" by (intro power_increasing) simp_all
    moreover have "(2 :: real) ^ 1024 = 2 ^ 970 * 2 ^ 54" by (simp add: power_add [symmetric])
    moreover have "(2 :: real) ^ 970 * 2 \<le> 2 ^ 970 * 2 ^ 54" by (intro mult_left_mono) simp_all
    ultimately show ?thesis by (simp add: float_overflow_def)
  qed
  have a: "actual_delay default_config 7 (jitter offline_env) = Inr 1800"
    using over
    by (simp add: actual_delay_def backoff_delay_def float_pow_def default_config_def
          offline_env_def)
  have nl: "\<not> is_rate_limited ascii_lower (ustr ''user offline'')"
    by (simp add: is_rate_limited_def rate_limit_indicators_def ustr_def ascii_lower_def)
  have c: "create_streamer_client ascii_lower default_config (conn offline_env)
             (init_scraper default_config Map.empty) (ustr ''streamer'')
           = Some ((init_scraper default_config Map.empty)
                     \<lparr>connection_attempts := 1, failed_connections := 1,
                      last_connection_time := 2805,
                      active_clients := {ustr ''streamer''}\<rparr>, False, False)"
    using nl
    by (simp add: create_streamer_client_def acquire_def release_def connect_body_def
          handle_failure_def Let_def is_globally_limited_def is_streamer_limited_def
          offline_env_def init_scraper_def default_config_def)
  have m: "monitor_iteration ascii_lower default_config offline_env (init_scraper default_config Map.empty)
       \<lparr>consecutive_failures = 7, consecutive_rate_limits = 0, last_success_time = 990\<rparr>
       (ustr ''streamer'')
     = Some ((init_scraper default_config Map.empty)
               \<lparr>connection_attempts := 1, failed_connections := 1, last_connection_time := 2805\<rparr>,
             \<lparr>consecutive_failures = 8, consecutive_rate_limits = 0, last_success_time = 990\<rparr>,
             [1800])"
    using a c by (simp add: monitor_iteration_def Let_def init_scraper_def)
  show ?thesis using a m by simp
qed

text \<open>
  C10, as amended.  Take an emoji-only comment (whitespace and characters of the emoji
  ranges only) whose keys are not in the ledger, for which strategy 3 counts fewer than
  three recent entries, on a ledger that holds each key once and only entries older
  than the event.  \<open>save_event\<close> writes nothing to the session file, leaves
  \<open>comments_captured\<close> unchanged and adds one to \<open>duplicates_filtered\<close>, and yet both keys
  are recorded in the ledger at the event's timestamp.  An event of the same author with
  the same trimmed text less than 30 seconds later is therefore suppressed by the
  exact-repeat rule.
\<close>

theorem emoji_only_recorded_then_filtered:
  assumes emoji: "\<forall>c \<in> set content. isspace c \<or> emoji_char c"
    and ke: "md5_hex (commenter @ ustr ''|'' @ strip content) = Some ke"
    and ks: "md5_hex (commenter @ ustr ''|'' @ nfc (strip (lower content))) = Some ks"
    and new_e: "map_of (ledger_of (recent_comments st) username) ke = None"
    and new_s: "map_of (ledger_of (recent_comments st) username) ks = None"
    and rf: "recent_from_user (ledger_of (recent_comments st) username) commenter now = Inr ts"
    and calm: "length ts < 3"
    and dist: "distinct (map fst (ledger_of (recent_comments st) username))"
    and old: "\<forall>(h, t) \<in> set (ledger_of (recent_comments st) username). t < now"
    and again: "strip content2 = strip content" and window: "t2 - now < 30"
  shows "session_files (save_event lower nfc st username Comment commenter content now)
           = session_files st \<and>
         comments_captured (save_event lower nfc st username Comment commenter content now)
           = comments_captured st \<and>
         duplicates_filtered (save_event lower nfc st username Comment commenter content now)
           = duplicates_filtered st + 1 \<and>
         map_of (ledger_of (recent_comments
                   (save_event lower nfc st username Comment commenter content now)) username) ke
           = Some now \<and>
         map_of (ledger_of (recent_comments
                   (save_event lower nfc st username Comment commenter content now)) username) ks
           = Some now \<and>
         seen_within (ledger_of (recent_comments
                   (save_event lower nfc st username Comment commenter content now)) username)
           ke t2 30 \<and>
         is_duplicate_comment lower nfc
             (recent_comments (save_event lower nfc st username Comment commenter content now))
             username commenter content2 t2
           = (recent_comments (save_event lower nfc st username Comment commenter content now),
              Inr True)"
proof -
  let ?st1 = "save_event lower nfc st username Comment commenter content now"
  let ?rc = "(recent_comments st)(username \<mapsto>
      keep_recent (purge_old (dict_set (dict_set (ledger_of (recent_comments st) username) ke now)
         ks now) now))"
  have nomatch: "\<not> (seen_within (ledger_of (recent_comments st) username) ke now 30 \<or>
            seen_within (ledger_of (recent_comments st) username) ks now 10 \<or> 3 \<le> length ts)"
    using new_e new_s calm by (simp add: seen_within_def)
  have first: "is_duplicate_comment lower nfc (recent_comments st) username commenter content now
               = (?rc, Inr False)"
    using nomatch is_duplicate_comment_cases [where lower = lower and nfc = nfc, OF ke ks rf]
    by simp
  have eo: "is_emoji_only_message content" using emoji by (simp add: is_emoji_only_iff)
  have st1: "?st1 = st\<lparr>recent_comments := ?rc, duplicates_filtered := duplicates_filtered st + 1\<rparr>"
    using first eo by (simp add: save_event_def)
  have m_e: "map_of (ledger_of (recent_comments ?st1) username) ke = Some now"
    using recorded_after_first(1) [OF first ke ks dist old] by (simp add: st1)
  have m_s: "map_of (ledger_of (recent_comments ?st1) username) ks = Some now"
    using recorded_after_first(2) [OF first ke ks dist old] by (simp add: st1)
  have seen: "seen_within (ledger_of (recent_comments ?st1) username) ke t2 30"
    using m_e window by (simp add: seen_within_def)
  have ke2: "md5_hex (commenter @ ustr ''|'' @ strip content2) = Some ke"
    using ke again by simp
  have dup: "is_duplicate_comment lower nfc (recent_comments ?st1) username commenter content2 t2
               = (recent_comments ?st1, Inr True)"
    by (rule suppress_exact [OF ke2 m_e window])
  show ?thesis
    using m_e m_s seen dup by (simp add: st1)
qed

text \<open>The theorem at three fire emoji (U+1F525) of \<open>u1\<close> at second 100, repeated at 110.\<close>

theorem emoji_only_recorded_then_filtered_witness:
  "is_emoji_only_message [0x1F525, 0x1F525, 0x1F525] \<and>
   md5_hex ((ustr ''u1'') @ ustr ''|'' @ strip [0x1F525, 0x1F525, 0x1F525]) = Some ''90ea19cea2e74990df75c734f8be4995'' \<and>
   md5_hex ((ustr ''u1'') @ ustr ''|'' @ nfc_id (strip (ascii_lower [0x1F525, 0x1F525, 0x1F525]))) = Some ''90ea19cea2e74990df75c734f8be4995'' \<and>
   map_of (ledger_of (recent_comments (init_scraper default_config Map.empty)) (ustr ''streamer'')) ''90ea19cea2e74990df75c734f8be4995'' = None \<and>
   recent_from_user (ledger_of (recent_comments (init_scraper default_config Map.empty)) (ustr ''streamer'')) (ustr ''u1'') 100 = Inr [] \<and>
   (110 :: real) - 100 < 30 \<and>
   session_files (save_event ascii_lower nfc_id (init_scraper default_config Map.empty) (ustr ''streamer'') Comment (ustr ''u1'') [0x1F525, 0x1F525, 0x1F525] 100) = session_files (init_scraper default_config Map.empty) \<and>
   comments_captured (save_event ascii_lower nfc_id (init_scraper default_config Map.empty) (ustr ''streamer'') Comment (ustr ''u1'') [0x1F525, 0x1F525, 0x1F525] 100) = comments_captured (init_scraper default_config Map.empty) \<and>
   duplicates_filtered (save_event ascii_lower nfc_id (init_scraper default_config Map.empty) (ustr ''streamer'') Comment (ustr ''u1'') [0x1F525, 0x1F525, 0x1F525] 100) = duplicates_filtered (init_scraper default_config Map.empty) + 1 \<and>
   map_of (ledger_of (recent_comments (save_event ascii_lower nfc_id (init_scraper default_config Map.empty) (ustr ''streamer'') Comment (ustr ''u1'') [0x1F525, 0x1F525, 0x1F525] 100)) (ustr ''streamer'')) ''90ea19cea2e74990df75c734f8be4995'' = Some 100 \<and>
   seen_within (ledger_of (recent_comments (save_event ascii_lower nfc_id (init_scraper default_config Map.empty) (ustr ''streamer'') Comment (ustr ''u1'') [0x1F525, 0x1F525, 0x1F525] 100)) (ustr ''streamer'')) ''90ea19cea2e74990df75c734f8be4995'' 110 30 \<and>
   is_duplicate_comment ascii_lower nfc_id (recent_comments (save_event ascii_lower nfc_id (init_scraper default_config Map.empty) (ustr ''streamer'') Comment (ustr ''u1'') [0x1F525, 0x1F525, 0x1F525] 100)) (ustr ''streamer'') (ustr ''u1'') [0x1F525, 0x1F525, 0x1F525] 110
     = (recent_comments (save_event ascii_lower nfc_id (init_scraper default_config Map.empty) (ustr ''streamer'') Comment (ustr ''u1'') [0x1F525, 0x1F525, 0x1F525] 100), Inr True)"
proof -
  have h1: "\<forall>c \<in> set [0x1F525, 0x1F525, 0x1F525]. isspace c \<or> emoji_char c"
    by (simp add: eval_defs)
  have h2: "md5_hex ((ustr ''u1'') @ ustr ''|'' @ strip [0x1F525, 0x1F525, 0x1F525]) = Some ''90ea19cea2e74990df75c734f8be4995''"
    by (simp add: eval_defs md5_fire)
  have h3: "md5_hex ((ustr ''u1'') @ ustr ''|'' @ nfc_id (strip (ascii_lower [0x1F525, 0x1F525, 0x1F525]))) = Some ''90ea19cea2e74990df75c734f8be4995''"
    by (simp add: eval_defs md5_fire)
  have h4: "map_of (ledger_of (recent_comments (init_scraper default_config Map.empty)) (ustr ''streamer'')) ''90ea19cea2e74990df75c734f8be4995'' = None"
    by (simp add: eval_defs)
  have h5: "recent_from_user (ledger_of (recent_comments (init_scraper default_config Map.empty)) (ustr ''streamer'')) (ustr ''u1'') 100 = Inr []"
    by (simp add: eval_defs)
  have h6: "length ([] :: real list) < 3" by simp
  have h7: "distinct (map fst (ledger_of (recent_comments (init_scraper default_config Map.empty)) (ustr ''streamer'')))"
    by (simp add: eval_defs)
  have h8: "\<forall>(h, t) \<in> set (ledger_of (recent_comments (init_scraper default_config Map.empty)) (ustr ''streamer'')). t < 100"
    by (simp add: eval_defs)
  have h9: "strip [0x1F525, 0x1F525, 0x1F525] = strip [0x1F525, 0x1F525, 0x1F525]" by simp
  have h10: "(110 :: real) - 100 < 30" by simp
  have e: "is_emoji_only_message [0x1F525, 0x1F525, 0x1F525]" using h1 by (simp only: is_emoji_only_iff)
  show ?thesis
    using e h2 h3 h4 h5 h10
      emoji_only_recorded_then_filtered
        [where lower = ascii_lower and nfc = nfc_id, OF h1 h2 h3 h4 h4 h5 h6 h7 h8 h9 h10]
    by blast
qed


text \<open>
  C10 as stated fails when the recorded keys do not survive the cleanup: on the ledger
  of 1000 entries stamped 200, the fire emoji of \<open>u1\<close> at second 100 is not in the ledger
  before the call and not after it, so the same comment at second 110 is not matched by
  the exact-repeat rule.
\<close>

theorem emoji_only_key_evicted_by_cap:
  "is_emoji_only_message [0x1F525, 0x1F525, 0x1F525] \<and>
   distinct (map fst (full_ledger 200)) \<and>
   md5_hex ((ustr ''u1'') @ ustr ''|'' @ strip [0x1F525, 0x1F525, 0x1F525]) = Some ''90ea19cea2e74990df75c734f8be4995'' \<and>
   md5_hex ((ustr ''u1'') @ ustr ''|'' @ nfc_id (strip (ascii_lower [0x1F525, 0x1F525, 0x1F525]))) = Some ''90ea19cea2e74990df75c734f8be4995'' \<and>
   map_of (ledger_of (recent_comments (init_scraper default_config [ustr ''streamer'' \<mapsto> full_ledger 200])) (ustr ''streamer'')) ''90ea19cea2e74990df75c734f8be4995'' = None \<and>
   duplicates_filtered (save_event ascii_lower nfc_id (init_scraper default_config [ustr ''streamer'' \<mapsto> full_ledger 200]) (ustr ''streamer'') Comment (ustr ''u1'') [0x1F525, 0x1F525, 0x1F525] 100) = duplicates_filtered (init_scraper default_config [ustr ''streamer'' \<mapsto> full_ledger 200]) + 1 \<and>
   map_of (ledger_of (recent_comments (save_event ascii_lower nfc_id (init_scraper default_config [ustr ''streamer'' \<mapsto> full_ledger 200]) (ustr ''streamer'') Comment (ustr ''u1'') [0x1F525, 0x1F525, 0x1F525] 100)) (ustr ''streamer'')) ''90ea19cea2e74990df75c734f8be4995'' = None \<and>
   \<not> seen_within (ledger_of (recent_comments (save_event ascii_lower nfc_id (init_scraper default_config [ustr ''streamer'' \<mapsto> full_ledger 200]) (ustr ''streamer'') Comment (ustr ''u1'') [0x1F525, 0x1F525, 0x1F525] 100)) (ustr ''streamer'')) ''90ea19cea2e74990df75c734f8be4995'' 110 30"
proof -
  have e: "is_emoji_only_message [0x1F525, 0x1F525, 0x1F525]" by (simp add: eval_defs)
  have ke: "md5_hex ((ustr ''u1'') @ ustr ''|'' @ strip [0x1F525, 0x1F525, 0x1F525]) = Some ''90ea19cea2e74990df75c734f8be4995''"
    by (simp add: eval_defs md5_fire)
  have ks: "md5_hex ((ustr ''u1'') @ ustr ''|'' @ nfc_id (strip (ascii_lower [0x1F525, 0x1F525, 0x1F525]))) = Some ''90ea19cea2e74990df75c734f8be4995''"
    by (simp add: eval_defs md5_fire)
  have ph: "md5_hex ((ustr ''u1'') @ ustr ''|'') = Some ''833597e5b182cc5af9fb3e7a6c0db77e''"
    by (simp add: eval_defs md5_bar)
  have rc: "recent_comments (init_scraper default_config [ustr ''streamer'' \<mapsto> full_ledger 200]) = [ustr ''streamer'' \<mapsto> full_ledger 200]"
    by (simp add: init_scraper_def)
  have r: "is_duplicate_comment ascii_lower nfc_id (recent_comments (init_scraper default_config [ustr ''streamer'' \<mapsto> full_ledger 200])) (ustr ''streamer'') (ustr ''u1'') [0x1F525, 0x1F525, 0x1F525] 100
             = ([ustr ''streamer'' \<mapsto> take 500 (full_ledger 200)], Inr False)"
    unfolding rc
    by (rule evicted_by_cap [where lower = ascii_lower and nfc = nfc_id, OF ke ks ph]) simp_all
  have sg: "(save_event ascii_lower nfc_id (init_scraper default_config [ustr ''streamer'' \<mapsto> full_ledger 200]) (ustr ''streamer'') Comment (ustr ''u1'') [0x1F525, 0x1F525, 0x1F525] 100) = (init_scraper default_config [ustr ''streamer'' \<mapsto> full_ledger 200])\<lparr>recent_comments := [ustr ''streamer'' \<mapsto> take 500 (full_ledger 200)],
                     duplicates_filtered := duplicates_filtered (init_scraper default_config [ustr ''streamer'' \<mapsto> full_ledger 200]) + 1\<rparr>"
    using r e by (simp add: save_event_def)
  have before: "map_of (full_ledger 200) ''90ea19cea2e74990df75c734f8be4995'' = None"
    using take_full_ledger_absent [where k = "''90ea19cea2e74990df75c734f8be4995''" and n = 1000 and t = 200]
    by (simp add: full_ledger_length)
  have after: "map_of (take 500 (full_ledger 200)) ''90ea19cea2e74990df75c734f8be4995'' = None"
    by (rule take_full_ledger_absent) simp
  show ?thesis
    using e ke ks before after full_ledger_distinct [of 200]
    by (simp add: sg rc ledger_of_def seen_within_def)
qed

end
